theory Spec2Isabelle
  imports Main "HOL-Library.Word" "HOL-Library.Signed_Division"
begin

section \<open>The radio module (Radio.c) as a shallow embedding\<close>

text \<open>
  The module is compiled with \<^verbatim>\<open>PL_HAS_RADIO\<close> and \<^verbatim>\<open>PL_HAS_CONTEST\<close> set: the contest
  code is part of everything below.

  A C string is modelled by the list of characters in front of its terminating NUL. A
  destination buffer of the bounded string routines is modelled by the string it holds; the
  capacity \<^verbatim>\<open>dstSize\<close> is passed as in the source. A buffer that the code reads as raw
  memory (a received payload, a queue slot) is a list of bytes, one \<open>char\<close> per byte, and
  \<open>cstr\<close> reads the C string at its start.
\<close>

subsection \<open>Bytes and C strings\<close>

definition byte_of :: "nat \<Rightarrow> char" where
  "byte_of n = char_of n"

definition val_of :: "char \<Rightarrow> nat" where
  "val_of c = of_char c"

definition cstr :: "string \<Rightarrow> string" where
  "cstr mem = takeWhile (\<lambda>c. c \<noteq> CHR 0x00) mem"

definition CRLF :: string where
  "CRLF = [CHR 0x0D, CHR 0x0A]"

text \<open>The character a \<^verbatim>\<open>char*\<close> points at: the terminator at the end of the string.\<close>

fun peek :: "string \<Rightarrow> char" where
  "peek [] = CHR 0x00"
| "peek (c # s) = c"

text \<open>
  What C leaves undefined is a value of the model: a read behind the end of a buffer (with
  the offset of the byte) and a division by zero.
\<close>

datatype error = OutOfBounds nat | DivisionByZero

subsection \<open>The bounded string routines of the Utility component\<close>

text \<open>
  Modelled from the spec: \<^verbatim>\<open>UTIL1_strcpy\<close>, \<^verbatim>\<open>UTIL1_strcat\<close> and \<^verbatim>\<open>UTIL1_chcat\<close> of the
  Utility component are not under src/. They are the bounded copies behind the spec's
  "truncated silently" when "buffer capacity [is] exceeded": the destination never holds
  more than \<^verbatim>\<open>dstSize - 1\<close> characters in front of its terminator.
\<close>

definition UTIL1_strcpy :: "nat \<Rightarrow> string \<Rightarrow> string" where
  "UTIL1_strcpy dstSize src = take (dstSize - 1) src"

definition UTIL1_strcat :: "string \<Rightarrow> nat \<Rightarrow> string \<Rightarrow> string" where
  "UTIL1_strcat dst dstSize src = take (dstSize - 1) (dst @ src)"

definition UTIL1_chcat :: "string \<Rightarrow> nat \<Rightarrow> char \<Rightarrow> string" where
  "UTIL1_chcat dst dstSize ch =
     (if ch = CHR 0x00 then take (dstSize - 1) dst else take (dstSize - 1) (dst @ [ch]))"

definition UTIL1_strlen :: "string \<Rightarrow> nat" where
  "UTIL1_strlen s = length s"

text \<open>
  Modelled from the spec: \<^verbatim>\<open>UTIL1_strncmp\<close> (the C library's \<^verbatim>\<open>strncmp\<close>) is not under
  src/. It is the spec's "bounded comparison": at most \<open>n\<close> characters are compared, the
  result is 0 when they agree and the difference of the first two that differ otherwise.
\<close>

fun UTIL1_strncmp :: "string \<Rightarrow> string \<Rightarrow> nat \<Rightarrow> int" where
  "UTIL1_strncmp s t 0 = 0"
| "UTIL1_strncmp [] [] (Suc n) = 0"
| "UTIL1_strncmp [] (y # t) (Suc n) = - int (val_of y)"
| "UTIL1_strncmp (x # s) [] (Suc n) = int (val_of x)"
| "UTIL1_strncmp (x # s) (y # t) (Suc n) =
     (if x = y then UTIL1_strncmp s t n else int (val_of x) - int (val_of y))"

text \<open>
  Modelled from the spec: \<^verbatim>\<open>UTIL1_Num8sToStr\<close>, \<^verbatim>\<open>UTIL1_strcatNum8s\<close> and their 16-bit
  versions are not under src/. They write the decimal digits of a signed value ("integer
  arithmetic", the \<^verbatim>\<open><int8>\<close> of the frame formats): the digits are produced from the
  least significant one while the destination has room, then the sign, and the characters
  are reversed. The appending versions format into a local buffer that holds every value
  of the type (5 and 7 bytes) and append it with \<^verbatim>\<open>UTIL1_strcat\<close>.
\<close>

fun num_digits :: "nat \<Rightarrow> nat \<Rightarrow> string" where
  "num_digits 0 v = []"
| "num_digits (Suc room) v =
     (if 0 < v then byte_of (v mod 10 + 48) # num_digits room (v div 10) else [])"

definition num_to_str :: "bool \<Rightarrow> nat \<Rightarrow> nat \<Rightarrow> string" where
  "num_to_str sign v room =
     (let zero = (if v = 0 \<and> 0 < room then ''0'' else []);
          room1 = room - length zero;
          digits = num_digits room1 v;
          room2 = room1 - length digits;
          minus = (if sign \<and> 0 < room2 then ''-'' else [])
      in rev (zero @ digits @ minus))"

definition UTIL1_NumsToStr :: "nat \<Rightarrow> int \<Rightarrow> string" where
  "UTIL1_NumsToStr dstSize val = num_to_str (val < 0) (nat \<bar>val\<bar>) (dstSize - 1)"

definition UTIL1_Num16sToStr :: "nat \<Rightarrow> 16 word \<Rightarrow> string" where
  "UTIL1_Num16sToStr dstSize val = UTIL1_NumsToStr dstSize (sint val)"

definition UTIL1_Num8sToStr :: "nat \<Rightarrow> 8 word \<Rightarrow> string" where
  "UTIL1_Num8sToStr dstSize val = UTIL1_NumsToStr dstSize (sint val)"

definition UTIL1_strcatNum16s :: "string \<Rightarrow> nat \<Rightarrow> 16 word \<Rightarrow> string" where
  "UTIL1_strcatNum16s dst dstSize val = UTIL1_strcat dst dstSize (UTIL1_Num16sToStr 7 val)"

definition UTIL1_strcatNum8s :: "string \<Rightarrow> nat \<Rightarrow> 8 word \<Rightarrow> string" where
  "UTIL1_strcatNum8s dst dstSize val = UTIL1_strcat dst dstSize (UTIL1_Num8sToStr 5 val)"

text \<open>
  Modelled from the spec: \<^verbatim>\<open>UTIL1_strcatNum8Hex\<close> is not under src/. It appends the two
  upper-case hexadecimal digits of a byte (the "hex dump" of a sniffed frame).
\<close>

definition hex_digit :: "nat \<Rightarrow> char" where
  "hex_digit h = (if h \<le> 9 then byte_of (h + 48) else byte_of (h + 55))"

definition UTIL1_strcatNum8Hex :: "string \<Rightarrow> nat \<Rightarrow> char \<Rightarrow> string" where
  "UTIL1_strcatNum8Hex dst dstSize num =
     UTIL1_strcat dst dstSize [hex_digit (val_of num div 16), hex_digit (val_of num mod 16)]"

text \<open>
  Modelled from the spec: \<^verbatim>\<open>UTIL1_xatoi\<close> is not under src/. It reads the \<^verbatim>\<open><int8>\<close> token
  of the spec's grammar: leading blanks are skipped, a \<^verbatim>\<open>-\<close> sign and a radix prefix
  (\<^verbatim>\<open>0x\<close>, \<^verbatim>\<open>0b\<close>, a leading \<^verbatim>\<open>0\<close> for octal) are accepted, and the digits run up to the
  next blank, control character or dot; any other character makes it fail. \<open>None\<close> is
  \<^verbatim>\<open>ERR_FAILED\<close>; \<open>Some (p, v)\<close> is \<^verbatim>\<open>ERR_OK\<close> with the advanced pointer and the value.
  The character \<open>c\<close> is an \<^verbatim>\<open>uint8_t\<close> and the value an \<^verbatim>\<open>uint32_t\<close>, both wrapping.
\<close>

definition code_of :: "char \<Rightarrow> 8 word" where
  "code_of c = of_nat (val_of c)"

fun xatoi_digits :: "8 word \<Rightarrow> 32 word \<Rightarrow> string \<Rightarrow> (string \<times> 32 word) option" where
  "xatoi_digits r v [] = Some ([], v)"
| "xatoi_digits r v (ch # p) =
     (if \<not> (32 < code_of ch \<and> ch \<noteq> CHR ''.'') then Some (ch # p, v)
      else
        let c1 = (if 97 \<le> code_of ch then code_of ch - 32 else code_of ch);
            c2 = c1 - 48
        in if 17 \<le> c2
           then (if c2 - 7 \<le> 9 \<or> r \<le> c2 - 7 then None
                 else xatoi_digits r (v * ucast r + ucast (c2 - 7)) p)
           else (if r \<le> c2 then None
                 else xatoi_digits r (v * ucast r + ucast c2) p))"

definition xatoi_radix :: "string \<Rightarrow> (8 word \<times> string) option option" where
  "xatoi_radix p =
     (if peek p = CHR ''0'' then
        (let p1 = tl p; c = peek p1 in
         if c = CHR ''x'' then Some (Some (16, tl p1))
         else if c = CHR ''b'' then Some (Some (2, tl p1))
         else if code_of c \<le> 32 \<or> c = CHR ''.'' then Some None
         else if code_of c < 48 \<or> 57 < code_of c then None
         else Some (Some (8, p1)))
      else if code_of (peek p) < 48 \<or> 57 < code_of (peek p) then None
      else Some (Some (10, p)))"

definition UTIL1_xatoi :: "string \<Rightarrow> (string \<times> 32 word) option" where
  "UTIL1_xatoi str =
     (let p0 = dropWhile (\<lambda>c. c = CHR '' '') str;
          s = (peek p0 = CHR ''-'');
          p1 = (if s then tl p0 else p0)
      in case xatoi_radix p1 of
           None \<Rightarrow> None
         | Some None \<Rightarrow> Some (tl p1, 0)
         | Some (Some (r, p2)) \<Rightarrow>
             (case xatoi_digits r 0 p2 of
                None \<Rightarrow> None
              | Some (p3, v) \<Rightarrow> Some (p3, if s then 0 - v else v)))"

subsection \<open>The contest protocol engine\<close>

record ContestExpression =
  opA :: "8 word"
  opB :: "8 word"
  operator :: char
  isQuestion :: bool

definition skip_spaces :: "string \<Rightarrow> string" where
  "skip_spaces p = dropWhile (\<lambda>c. c = CHR '' '' \<and> c \<noteq> CHR 0x00) p"

text \<open>
  \<^verbatim>\<open>IsContestMessage\<close>: \<open>None\<close> is the return value \<^verbatim>\<open>FALSE\<close>; on \<^verbatim>\<open>TRUE\<close> the four output
  parameters are the fields of the record. The casts \<^verbatim>\<open>(int8_t)val\<close> keep the low byte.
\<close>

definition IsContestMessage :: "string \<Rightarrow> ContestExpression option" where
  "IsContestMessage msg =
     (case UTIL1_xatoi msg of
        None \<Rightarrow> None
      | Some (p1, va) \<Rightarrow>
          (let p2 = skip_spaces p1; oc = peek p2 in
           if \<not> (oc = CHR ''+'' \<or> oc = CHR ''-'' \<or> oc = CHR ''*'' \<or> oc = CHR ''/'') then None
           else
             (case UTIL1_xatoi (tl p2) of
                None \<Rightarrow> None
              | Some (p3, vb) \<Rightarrow>
                  (let p4 = skip_spaces p3 in
                   if peek p4 \<noteq> CHR ''='' then None
                   else
                     (let p5 = skip_spaces (tl p4);
                          e = \<lparr>opA = ucast va, opB = ucast vb, operator = oc, isQuestion = False\<rparr>
                      in if peek p5 = CHR ''?'' then Some (e\<lparr>isQuestion := True\<rparr>)
                         else (case UTIL1_xatoi p5 of
                                 None \<Rightarrow> None
                               | Some (p6, vc) \<Rightarrow> Some e))))))"

text \<open>
  The quotient of two \<^verbatim>\<open>int8_t\<close> values: C divides the promoted operands, truncating
  towards zero, and a zero divisor is undefined (the error \<open>DivisionByZero\<close>); the call
  converts the result back to \<^verbatim>\<open>signed char\<close>. Sum, difference and product are converted
  the same way, which is the arithmetic of \<open>8 word\<close>.
\<close>

definition int8_div :: "8 word \<Rightarrow> 8 word \<Rightarrow> error + 8 word" where
  "int8_div a b = (if b = 0 then Inl DivisionByZero else Inr (word_of_int (sint a sdiv sint b)))"

definition contest_trailer :: string where
  "contest_trailer = '' Joe TheBest!''"

text \<open>
  \<^verbatim>\<open>CalcResultString\<close>: the string left in \<^verbatim>\<open>buf\<close>, or the error of the division.
\<close>

definition CalcResultString :: "nat \<Rightarrow> 8 word \<Rightarrow> 8 word \<Rightarrow> char \<Rightarrow> error + string" where
  "CalcResultString bufSize a b oc =
     (let b0 = UTIL1_Num8sToStr bufSize a;
          b1 = UTIL1_chcat b0 bufSize CHR '' '';
          b2 = UTIL1_chcat b1 bufSize oc;
          b3 = UTIL1_chcat b2 bufSize CHR '' '';
          b4 = UTIL1_strcatNum8s b3 bufSize b;
          b5 = UTIL1_strcat b4 bufSize '' = '';
          b6 = (if oc = CHR ''+'' then Inr (UTIL1_strcatNum8s b5 bufSize (a + b))
                else if oc = CHR ''-'' then Inr (UTIL1_strcatNum8s b5 bufSize (a - b))
                else if oc = CHR ''*'' then Inr (UTIL1_strcatNum8s b5 bufSize (a * b))
                else if oc = CHR ''/'' then
                  (if b \<noteq> 0 then
                     (case int8_div a b of
                        Inl e \<Rightarrow> Inl e
                      | Inr q \<Rightarrow> Inr (UTIL1_strcatNum8s b5 bufSize q))
                   else Inr (UTIL1_strcat b5 bufSize ''ERROR''))
                else Inr b5)
      in case b6 of
           Inl e \<Rightarrow> Inl e
         | Inr s \<Rightarrow> Inr (UTIL1_strcat s bufSize contest_trailer))"

text \<open>
  The answer as the spec words it, for comparison with \<^verbatim>\<open>CalcResultString\<close>: the two
  operands around the operator, \<^verbatim>\<open>=\<close>, the result of the integer arithmetic (the token
  \<^verbatim>\<open>ERROR\<close> for a division by zero, nothing for a character that is no operator) and
  the fixed trailer, with no bound on the length.
\<close>

definition spec_result_token :: "8 word \<Rightarrow> 8 word \<Rightarrow> char \<Rightarrow> string" where
  "spec_result_token a b oc =
     (if oc = CHR ''+'' then UTIL1_Num8sToStr 5 (a + b)
      else if oc = CHR ''-'' then UTIL1_Num8sToStr 5 (a - b)
      else if oc = CHR ''*'' then UTIL1_Num8sToStr 5 (a * b)
      else if oc = CHR ''/'' then
        (if b = 0 then ''ERROR'' else UTIL1_Num8sToStr 5 (word_of_int (sint a sdiv sint b)))
      else [])"

definition spec_formatted_answer :: "8 word \<Rightarrow> 8 word \<Rightarrow> char \<Rightarrow> string" where
  "spec_formatted_answer a b oc =
     UTIL1_Num8sToStr 5 a @ '' '' @ (if oc = CHR 0x00 then [] else [oc]) @ '' ''
       @ UTIL1_Num8sToStr 5 b @ '' = '' @ spec_result_token a b oc @ contest_trailer"

subsection \<open>Configuration, driver and state\<close>

text \<open>
  \<^verbatim>\<open>Platform.h\<close>, \<^verbatim>\<open>SMAC1.h\<close> and \<^verbatim>\<open>Remote.h\<close> are not under src/: the constants the
  module takes from them are parameters, and so is the width of the compiler's
  \<^verbatim>\<open>size_t\<close>.
\<close>

record Platform =
  SMAC1_RADIO_BUF_SIZE :: nat
  PL_HAS_REMOTE_MOTOR :: bool
  REMOTE_ACCEL_PREFIX :: string
  SIZE_T_BITS :: nat

datatype RADIO_AppStatusKind =
    RADIO_INITIAL_STATE
  | RADIO_RESET_STATE
  | RADIO_RECEIVER_ALWAYS_ON
  | RADIO_TRANSMIT_DATA
  | RADIO_WAITING_FOR_ACK
  | RADIO_TRANSMIT_ACK
  | RADIO_READY_FOR_TX_RX_DATA

datatype RADIO_QueueMsgKind =
    RADIO_QUEUE_MSG_SNIFF
  | RADIO_QUEUE_MSG_CONTEST_QUESTION
  | RADIO_QUEUE_MSG_CONTEST_ANSWER
  | RADIO_QUEUE_MSG_ACCEL

fun kind_byte :: "RADIO_QueueMsgKind \<Rightarrow> char" where
  "kind_byte RADIO_QUEUE_MSG_SNIFF = byte_of 0"
| "kind_byte RADIO_QUEUE_MSG_CONTEST_QUESTION = byte_of 1"
| "kind_byte RADIO_QUEUE_MSG_CONTEST_ANSWER = byte_of 2"
| "kind_byte RADIO_QUEUE_MSG_ACCEL = byte_of 3"

definition RADIO_QUEUE_NOF_ITEMS :: nat where
  "RADIO_QUEUE_NOF_ITEMS = 8"

definition RADIO_QUEUE_ITEM_SIZE :: nat where
  "RADIO_QUEUE_ITEM_SIZE = 32"

definition RADIO_PREFIX_STR :: string where
  "RADIO_PREFIX_STR = ''EST''"

definition RADIO_ACK_STR :: string where
  "RADIO_ACK_STR = ''ack''"

definition RADIO_TIMEOUT_COUNT :: nat where
  "RADIO_TIMEOUT_COUNT = 0xB000"

datatype smac_status = SMAC1_SUCCESS | SMAC1_TIMEOUT | SMAC1_OVERFLOW | TRSVR1_INITIAL_VALUE

text \<open>
  The events of \<^verbatim>\<open>Event.h\<close> (not under src/): the six radio events the module names, and
  \<open>EVNT_OTHER\<close> for every other handle of the application.
\<close>

datatype EVNT_Handle =
    EVNT_RADIO_RESET
  | EVNT_RADIO_TIMEOUT
  | EVNT_RADIO_ACK
  | EVNT_RADIO_OVERFLOW
  | EVNT_RADIO_DATA
  | EVNT_RADIO_UNKNOWN
  | EVNT_OTHER

record tTxPacket =
  tx_u8DataLength :: "8 word"
  tx_pu8Data :: string

record tRxPacket =
  u8Status :: smac_status
  pu8Data :: string
  u8DataLength :: "8 word"

text \<open>
  Every call the module makes into a collaborator (driver, LEDs, event module, shell,
  console, remote control) is appended to a trace, in program order. A transmit request
  carries the packet descriptor, which holds the buffer it points to. The trace also
  records, as \<open>OutOfBoundsRead\<close> with the offset, every read the consumer makes behind the
  end of its copy of a slot.
\<close>

datatype effect =
    SMAC1_MLMERXEnableRequest nat
  | SMAC1_MLMERXDisableRequest
  | SMAC1_MCPSDataRequest tTxPacket
  | SMAC1_RadioInit
  | LED1_Neg
  | LED2_Neg
  | EVNT_SetEvent EVNT_Handle
  | SHELL_SendMessage string
  | CLS1_SendStr string
  | REMOTE_ParseMsg string nat
  | OutOfBoundsRead nat

text \<open>
  The driver is outside the module: whether a request returns \<^verbatim>\<open>SMAC1_SUCCESS\<close> is a
  function of the trace up to and including the request.
\<close>

type_synonym smac_driver = "effect list \<Rightarrow> bool"

text \<open>
  The file's static variables. \<^verbatim>\<open>RADIO_TxPacket.pu8Data\<close> always points at
  \<^verbatim>\<open>RADIO_TxDataBuffer\<close>, so the descriptor is its length field and the buffer is a field
  of its own, holding the string last stored in it.
\<close>

record RADIO_State =
  RADIO_AppStatus :: RADIO_AppStatusKind
  RADIO_isOn :: bool
  RADIO_isSniffing :: bool
  RADIO_isContest :: bool
  RADIO_Channel :: "8 word"
  ContestCalcExpectedResultStr :: string
  RADIO_TxDataBuffer :: string
  RADIO_TxPacket_u8DataLength :: "8 word"
  RADIO_MsgQueue :: "string list"
  trace :: "effect list"

definition emit :: "effect list \<Rightarrow> RADIO_State \<Rightarrow> RADIO_State" where
  "emit es s = s\<lparr>trace := trace s @ es\<rparr>"

subsection \<open>The state machine\<close>

definition ack_packet :: "Platform \<Rightarrow> tTxPacket" where
  "ack_packet pl =
     (let ackTxDataBuffer = UTIL1_strcpy (SMAC1_RADIO_BUF_SIZE pl) (RADIO_PREFIX_STR @ RADIO_ACK_STR)
      in \<lparr>tx_u8DataLength = of_nat (UTIL1_strlen ackTxDataBuffer + 1),
          tx_pu8Data = ackTxDataBuffer\<rparr>)"

definition RADIO_HandleState :: "Platform \<Rightarrow> smac_driver \<Rightarrow> RADIO_State \<Rightarrow> RADIO_State" where
  "RADIO_HandleState pl drv s =
     (case RADIO_AppStatus s of
        RADIO_INITIAL_STATE \<Rightarrow> s\<lparr>RADIO_AppStatus := RADIO_RECEIVER_ALWAYS_ON\<rparr>
      | RADIO_RECEIVER_ALWAYS_ON \<Rightarrow>
          emit [SMAC1_MLMERXEnableRequest 0] (s\<lparr>RADIO_AppStatus := RADIO_READY_FOR_TX_RX_DATA\<rparr>)
      | RADIO_READY_FOR_TX_RX_DATA \<Rightarrow> s
      | RADIO_TRANSMIT_DATA \<Rightarrow>
          (let s1 = emit [SMAC1_MLMERXDisableRequest] s in
           if \<not> drv (trace s1) then s1\<lparr>RADIO_AppStatus := RADIO_TRANSMIT_DATA\<rparr>
           else
             (let s2 = emit [LED1_Neg,
                             SMAC1_MCPSDataRequest
                               \<lparr>tx_u8DataLength = RADIO_TxPacket_u8DataLength s,
                                tx_pu8Data = RADIO_TxDataBuffer s\<rparr>] s1
              in if drv (trace s2)
                 then emit [SMAC1_MLMERXEnableRequest RADIO_TIMEOUT_COUNT]
                        (s2\<lparr>RADIO_AppStatus :=
                              (if RADIO_isContest s2 then RADIO_RECEIVER_ALWAYS_ON
                               else RADIO_WAITING_FOR_ACK)\<rparr>)
                 else s2\<lparr>RADIO_AppStatus := RADIO_RECEIVER_ALWAYS_ON\<rparr>))
      | RADIO_TRANSMIT_ACK \<Rightarrow>
          (emit [SMAC1_MCPSDataRequest (ack_packet pl)] s)\<lparr>RADIO_AppStatus := RADIO_RECEIVER_ALWAYS_ON\<rparr>
      | RADIO_RESET_STATE \<Rightarrow>
          (emit [SMAC1_RadioInit] s)\<lparr>RADIO_AppStatus := RADIO_INITIAL_STATE\<rparr>
      | RADIO_WAITING_FOR_ACK \<Rightarrow> s)"

subsection \<open>The message queue\<close>

text \<open>
  Modelled from the spec: \<^verbatim>\<open>FRTOS1_xQueueSendToBackFromISR\<close> and \<^verbatim>\<open>FRTOS1_xQueueReceive\<close>
  (the FreeRTOS queue) are not under src/. The queue is the spec's bounded FIFO of fixed
  capacity and slot size: sending never blocks and reports failure on a full queue
  (\<open>False\<close> for a result other than \<^verbatim>\<open>pdTRUE\<close>), receiving with a zero wait takes the
  oldest slot or reports an empty queue (\<open>None\<close>).
\<close>

definition xQueueSendToBackFromISR :: "string list \<Rightarrow> string \<Rightarrow> bool \<times> string list" where
  "xQueueSendToBackFromISR q item =
     (if length q < RADIO_QUEUE_NOF_ITEMS then (True, q @ [take RADIO_QUEUE_ITEM_SIZE item])
      else (False, q))"

definition xQueueReceive :: "string list \<Rightarrow> (string \<times> string list) option" where
  "xQueueReceive q = (case q of [] \<Rightarrow> None | item # q' \<Rightarrow> Some (item, q'))"

text \<open>
  The copy loop of \<^verbatim>\<open>QueueMessage\<close>: \<open>i\<close> is the write index, the last argument the
  remaining \<^verbatim>\<open>msgSize\<close>.
\<close>

fun QueueMessage_copy :: "string \<Rightarrow> nat \<Rightarrow> string \<Rightarrow> nat \<Rightarrow> string" where
  "QueueMessage_copy buf i msg 0 = buf"
| "QueueMessage_copy buf i msg (Suc msgSize) =
     (if i < length buf then QueueMessage_copy (buf[i := peek msg]) (Suc i) (tl msg) msgSize
      else buf)"

text \<open>
  The slot \<^verbatim>\<open>QueueMessage\<close> builds in its local \<^verbatim>\<open>buf\<close>. The array is not initialised:
  \<open>buf0\<close> is what the \<^verbatim>\<open>RADIO_QUEUE_ITEM_SIZE\<close> bytes hold on entry.
\<close>

definition QueueMessage_buf :: "string \<Rightarrow> char \<Rightarrow> string \<Rightarrow> 8 word \<Rightarrow> string" where
  "QueueMessage_buf buf0 kind msg msgSize =
     QueueMessage_copy (buf0[0 := kind, 1 := byte_of (unat msgSize)]) 2 msg (unat msgSize)"

text \<open>
  \<^verbatim>\<open>QueueMessage\<close> returns nothing. The result \<open>sent\<close> of the send is tested, and the
  branch for a failed send is empty.
\<close>

definition QueueMessage :: "string \<Rightarrow> char \<Rightarrow> string \<Rightarrow> 8 word \<Rightarrow> RADIO_State \<Rightarrow> RADIO_State" where
  "QueueMessage buf0 kind msg msgSize s =
     (case xQueueSendToBackFromISR (RADIO_MsgQueue s) (QueueMessage_buf buf0 kind msg msgSize) of
        (sent, q) \<Rightarrow> s\<lparr>RADIO_MsgQueue := q\<rparr>)"

subsection \<open>The packet classifier and the event handler\<close>

text \<open>
  \<^verbatim>\<open>RADIO_DataIndicationPacket\<close>. The payload is read as a C string up to its terminator
  (or the end of the receive buffer); \<open>buf0\<close> is passed on to \<^verbatim>\<open>QueueMessage\<close>.
\<close>

definition RADIO_DataIndicationPacket ::
  "Platform \<Rightarrow> string \<Rightarrow> tRxPacket \<Rightarrow> RADIO_State \<Rightarrow> RADIO_State" where
  "RADIO_DataIndicationPacket pl buf0 sRxPacket s =
     (if u8Status sRxPacket = SMAC1_TIMEOUT then
        emit [LED1_Neg, LED2_Neg, EVNT_SetEvent EVNT_RADIO_TIMEOUT] s
      else if u8Status sRxPacket = SMAC1_SUCCESS then
        (let s1 = (if RADIO_isSniffing s
                   then QueueMessage buf0 (kind_byte RADIO_QUEUE_MSG_SNIFF)
                          (pu8Data sRxPacket) (u8DataLength sRxPacket) s
                   else s);
             data = cstr (pu8Data sRxPacket)
         in if RADIO_AppStatus s1 = RADIO_WAITING_FOR_ACK
               \<and> UTIL1_strncmp data (RADIO_PREFIX_STR @ RADIO_ACK_STR)
                    (length (RADIO_PREFIX_STR @ RADIO_ACK_STR)) = 0
            then emit [EVNT_SetEvent EVNT_RADIO_ACK] s1
            else if RADIO_isContest s1 \<and> IsContestMessage data \<noteq> None then
              (case IsContestMessage data of
                 Some e \<Rightarrow>
                   emit [EVNT_SetEvent EVNT_RADIO_DATA]
                     (QueueMessage buf0
                        (if isQuestion e then kind_byte RADIO_QUEUE_MSG_CONTEST_QUESTION
                         else kind_byte RADIO_QUEUE_MSG_CONTEST_ANSWER)
                        (pu8Data sRxPacket) (u8DataLength sRxPacket) s1)
               | None \<Rightarrow> s1)
            else if UTIL1_strncmp data RADIO_PREFIX_STR (length RADIO_PREFIX_STR) = 0 then
              emit [EVNT_SetEvent EVNT_RADIO_DATA]
                (if PL_HAS_REMOTE_MOTOR pl
                    \<and> UTIL1_strncmp data (RADIO_PREFIX_STR @ REMOTE_ACCEL_PREFIX pl)
                         (length (RADIO_PREFIX_STR @ REMOTE_ACCEL_PREFIX pl)) = 0
                 then QueueMessage buf0 (kind_byte RADIO_QUEUE_MSG_ACCEL)
                        (pu8Data sRxPacket) (u8DataLength sRxPacket) s1
                 else s1)
            else emit [EVNT_SetEvent EVNT_RADIO_UNKNOWN] s1)
      else if u8Status sRxPacket = SMAC1_OVERFLOW then
        emit [EVNT_SetEvent EVNT_RADIO_OVERFLOW, LED1_Neg, LED2_Neg] s
      else s)"

definition RADIO_ResetIndication :: "RADIO_State \<Rightarrow> RADIO_State" where
  "RADIO_ResetIndication s = emit [EVNT_SetEvent EVNT_RADIO_RESET] s"

fun RADIO_AppHandleEvent :: "EVNT_Handle \<Rightarrow> RADIO_State \<Rightarrow> RADIO_State" where
  "RADIO_AppHandleEvent EVNT_RADIO_RESET s =
     (emit [SHELL_SendMessage (''RADIO reset'' @ CRLF)] s)\<lparr>RADIO_AppStatus := RADIO_RESET_STATE\<rparr>"
| "RADIO_AppHandleEvent EVNT_RADIO_TIMEOUT s =
     (emit [SHELL_SendMessage (''RADIO timeout'' @ CRLF)] s)\<lparr>RADIO_AppStatus := RADIO_RECEIVER_ALWAYS_ON\<rparr>"
| "RADIO_AppHandleEvent EVNT_RADIO_ACK s =
     (emit [SHELL_SendMessage (''RADIO rx ack'' @ CRLF)] s)\<lparr>RADIO_AppStatus := RADIO_RECEIVER_ALWAYS_ON\<rparr>"
| "RADIO_AppHandleEvent EVNT_RADIO_OVERFLOW s =
     (emit [SHELL_SendMessage (''RADIO overflow'' @ CRLF)] s)\<lparr>RADIO_AppStatus := RADIO_RECEIVER_ALWAYS_ON\<rparr>"
| "RADIO_AppHandleEvent EVNT_RADIO_DATA s =
     (emit [SHELL_SendMessage (''RADIO rx data, going to tx ACK'' @ CRLF)] s)\<lparr>RADIO_AppStatus := RADIO_TRANSMIT_ACK\<rparr>"
| "RADIO_AppHandleEvent EVNT_RADIO_UNKNOWN s =
     (emit [SHELL_SendMessage (''RADIO unknown'' @ CRLF)] s)\<lparr>RADIO_AppStatus := RADIO_RECEIVER_ALWAYS_ON\<rparr>"
| "RADIO_AppHandleEvent EVNT_OTHER s = s"

subsection \<open>Sending\<close>

text \<open>
  The busy loop of the send operations: it returns once the state machine is ready; a run
  that never gets there is \<open>None\<close>. The receive callback does not run in between (the
  spec's cooperative scheduling): only the steps of the loop change the state.
\<close>

partial_function (option) busy_drain ::
  "Platform \<Rightarrow> smac_driver \<Rightarrow> RADIO_State \<Rightarrow> RADIO_State option" where
  "busy_drain pl drv s =
     (if RADIO_AppStatus s \<noteq> RADIO_READY_FOR_TX_RX_DATA
      then busy_drain pl drv (RADIO_HandleState pl drv s)
      else Some s)"

declare busy_drain.simps [code]

definition load_and_transmit :: "Platform \<Rightarrow> smac_driver \<Rightarrow> string \<Rightarrow> RADIO_State \<Rightarrow> RADIO_State" where
  "load_and_transmit pl drv frame s =
     RADIO_HandleState pl drv
       (s\<lparr>RADIO_TxDataBuffer := frame,
          RADIO_TxPacket_u8DataLength := of_nat (UTIL1_strlen frame + 1),
          RADIO_AppStatus := RADIO_TRANSMIT_DATA\<rparr>)"

definition RADIO_SendString ::
  "Platform \<Rightarrow> smac_driver \<Rightarrow> string \<Rightarrow> RADIO_State \<Rightarrow> RADIO_State option" where
  "RADIO_SendString pl drv data s =
     (if \<not> RADIO_isOn s then Some s
      else
        (case busy_drain pl drv s of
           None \<Rightarrow> None
         | Some s1 \<Rightarrow>
             Some (load_and_transmit pl drv
                     (UTIL1_strcat (UTIL1_strcpy (SMAC1_RADIO_BUF_SIZE pl) RADIO_PREFIX_STR)
                        (SMAC1_RADIO_BUF_SIZE pl) data) s1)))"

definition RADIO_SendStringRaw ::
  "Platform \<Rightarrow> smac_driver \<Rightarrow> string \<Rightarrow> RADIO_State \<Rightarrow> RADIO_State option" where
  "RADIO_SendStringRaw pl drv data s =
     (if \<not> RADIO_isOn s then Some s
      else
        (case busy_drain pl drv s of
           None \<Rightarrow> None
         | Some s1 \<Rightarrow>
             Some (load_and_transmit pl drv (UTIL1_strcpy (SMAC1_RADIO_BUF_SIZE pl) data) s1)))"

subsection \<open>The responder and the challenge command\<close>

definition RespondWithAnswer ::
  "Platform \<Rightarrow> smac_driver \<Rightarrow> string \<Rightarrow> RADIO_State \<Rightarrow> (error + RADIO_State) option" where
  "RespondWithAnswer pl drv msg s =
     (case IsContestMessage msg of
        None \<Rightarrow> Some (Inr s)
      | Some e \<Rightarrow>
          if \<not> isQuestion e then Some (Inr s)
          else
            (case CalcResultString 36 (opA e) (opB e) (operator e) of
               Inl err \<Rightarrow> Some (Inl err)
             | Inr buf \<Rightarrow>
                 map_option Inr
                   (RADIO_SendStringRaw pl drv buf
                      (emit [CLS1_SendStr ''Contest answer: '', CLS1_SendStr buf, CLS1_SendStr CRLF] s))))"

text \<open>
  The branch of \<^verbatim>\<open>RADIO_ParseCommand\<close> for a command that starts with
  \<^verbatim>\<open>radio challenge\<close>: the expression behind the command word and one more character
  (\<^verbatim>\<open>p = cmd + 16\<close>) is sent as a question, built in a 16-byte buffer, and the expected
  answer is stored in the 16 bytes of \<^verbatim>\<open>ContestCalcExpectedResultStr\<close>. The terminator of
  a command of \<open>n\<close> characters is its byte \<open>n\<close>: for the bare command of 15 characters
  \<^verbatim>\<open>p\<close> points behind the terminator, and the parser's first read is the error
  \<open>OutOfBounds 16\<close>.
\<close>

definition RADIO_ParseCommand_challenge ::
  "Platform \<Rightarrow> smac_driver \<Rightarrow> string \<Rightarrow> RADIO_State \<Rightarrow> (error + RADIO_State) option" where
  "RADIO_ParseCommand_challenge pl drv cmd s =
     (if length cmd < 16 then Some (Inl (OutOfBounds 16))
      else
      case IsContestMessage (drop 16 cmd) of
        None \<Rightarrow> Some (Inr s)
      | Some e \<Rightarrow>
          (let b0 = UTIL1_Num8sToStr 16 (opA e);
               b1 = UTIL1_chcat b0 16 CHR '' '';
               b2 = UTIL1_chcat b1 16 (operator e);
               b3 = UTIL1_chcat b2 16 CHR '' '';
               b4 = UTIL1_strcatNum8s b3 16 (opB e);
               buf = UTIL1_strcat b4 16 '' = ?''
           in case RADIO_SendStringRaw pl drv buf s of
                None \<Rightarrow> None
              | Some s1 \<Rightarrow>
                  (case CalcResultString 16 (opA e) (opB e) (operator e) of
                     Inl err \<Rightarrow> Some (Inl err)
                   | Inr r \<Rightarrow> Some (Inr (s1\<lparr>ContestCalcExpectedResultStr := r\<rparr>)))))"

subsection \<open>The consumer of the queue\<close>

text \<open>
  The consumer works on its 32-byte copy of a slot; \<^verbatim>\<open>msg\<close> points at its third byte. The
  argument \<open>slot\<close> of the functions below is the memory from the start of that copy: the
  slot, and behind it the bytes that follow the copy in memory, as far as they are known.
  A read behind the known memory is an error, and so is a C string that does not end
  inside it.
\<close>

definition slot_read :: "string \<Rightarrow> nat \<Rightarrow> error + char" where
  "slot_read slot off = (if off < length slot then Inr (slot ! off) else Inl (OutOfBounds off))"

definition slot_cstr :: "string \<Rightarrow> nat \<Rightarrow> error + string" where
  "slot_cstr slot off =
     (if CHR 0x00 \<in> set (drop off slot) then Inr (cstr (drop off slot))
      else Inl (OutOfBounds (length slot)))"

text \<open>
  A read of \<^verbatim>\<open>msg[i]\<close> in the loops of the sniff branch, at offset \<open>2 + i\<close> of the copy: an
  offset of \<^verbatim>\<open>RADIO_QUEUE_ITEM_SIZE\<close> or more is behind the copy, and the read yields the
  byte that lies there together with its record for the trace.
\<close>

definition oob_reads :: "nat list \<Rightarrow> effect list" where
  "oob_reads offs = map OutOfBoundsRead (filter (\<lambda>off. RADIO_QUEUE_ITEM_SIZE \<le> off) offs)"

definition msg_read :: "string \<Rightarrow> nat \<Rightarrow> error + (effect list \<times> char)" where
  "msg_read slot off =
     (if off < length slot then Inr (oob_reads [off], slot ! off) else Inl (OutOfBounds off))"

text \<open>
  The two loops of the sniff branch; \<open>rds\<close> collects the records of the reads behind the
  copy.
\<close>

function sniff_ascii ::
  "string \<Rightarrow> nat \<Rightarrow> nat \<Rightarrow> effect list \<Rightarrow> string \<Rightarrow> error + (effect list \<times> string)" where
  "sniff_ascii slot len i rds buf =
     (if i < len \<and> i < 32 then
        (case msg_read slot (2 + i) of
           Inl e \<Rightarrow> Inl e
         | Inr (rd, c) \<Rightarrow> sniff_ascii slot len (Suc i) (rds @ rd) (UTIL1_chcat buf 32 c))
      else Inr (rds, buf))"
  by pat_completeness auto
termination
  by (relation "measure (\<lambda>(slot, len, i, rds, buf). len - i)") auto

function sniff_hex ::
  "string \<Rightarrow> nat \<Rightarrow> nat \<Rightarrow> effect list \<Rightarrow> string \<Rightarrow> error + (effect list \<times> string)" where
  "sniff_hex slot len i rds buf =
     (if i < len then
        (case msg_read slot (2 + i) of
           Inl e \<Rightarrow> Inl e
         | Inr (rd, c) \<Rightarrow>
             sniff_hex slot len (Suc i) (rds @ rd)
               (UTIL1_strcat (UTIL1_strcatNum8Hex buf 32 c) 32 '' ''))
      else Inr (rds, buf))"
  by pat_completeness auto
termination
  by (relation "measure (\<lambda>(slot, len, i, rds, buf). len - i)") auto

declare sniff_ascii.simps [simp del]
declare sniff_hex.simps [simp del]

definition sniff_header :: "8 word \<Rightarrow> nat \<Rightarrow> string" where
  "sniff_header channel len =
     (let b0 = UTIL1_strcpy 32 (CRLF @ ''ch #:'');
          b1 = UTIL1_strcatNum16s b0 32 (ucast channel);
          b2 = UTIL1_strcat b1 32 '' size:'';
          b3 = UTIL1_strcatNum16s b2 32 (of_nat len)
      in UTIL1_strcat b3 32 '' ASCII: '')"

definition HandleMessage_sniff :: "string \<Rightarrow> RADIO_State \<Rightarrow> error + RADIO_State" where
  "HandleMessage_sniff slot s =
     (case slot_read slot 1 of
        Inl e \<Rightarrow> Inl e
      | Inr sz \<Rightarrow>
          (let len = val_of sz;
               s1 = emit [SHELL_SendMessage (sniff_header (RADIO_Channel s) len)] s
           in case sniff_ascii slot len 0 [] [] of
                Inl e \<Rightarrow> Inl e
              | Inr (rds1, ascii) \<Rightarrow>
                  (let s2 = emit (rds1 @ [SHELL_SendMessage ascii]) s1 in
                   case sniff_hex slot len 0 [] (UTIL1_strcat [] 32 '' hex: '') of
                     Inl e \<Rightarrow> Inl e
                   | Inr (rds2, hex) \<Rightarrow>
                       Inr (emit (rds2 @ [SHELL_SendMessage hex, SHELL_SendMessage CRLF]) s2))))"

definition HandleMessage_question ::
  "Platform \<Rightarrow> smac_driver \<Rightarrow> string \<Rightarrow> RADIO_State \<Rightarrow> (error + RADIO_State) option" where
  "HandleMessage_question pl drv slot s =
     (case slot_cstr slot 2 of
        Inl e \<Rightarrow> Some (Inl e)
      | Inr msg \<Rightarrow>
          RespondWithAnswer pl drv msg
            (emit [CLS1_SendStr (CRLF @ ''Contest question: ''), CLS1_SendStr msg, CLS1_SendStr CRLF] s))"

text \<open>
  The answer branch. The comparison reads at most as many characters as the cached string
  has; the condition of the \<^verbatim>\<open>if\<close> is the result of \<^verbatim>\<open>UTIL1_strncmp\<close> itself, true when
  it is not 0. (The question and the answer branch read the length byte into \<^verbatim>\<open>size\<close>
  and do not use it.)
\<close>

definition HandleMessage_answer :: "string \<Rightarrow> RADIO_State \<Rightarrow> error + RADIO_State" where
  "HandleMessage_answer slot s =
     (if UTIL1_strncmp (cstr (drop 2 slot)) (ContestCalcExpectedResultStr s)
           (UTIL1_strlen (ContestCalcExpectedResultStr s)) \<noteq> 0
      then
        (case slot_cstr slot 2 of
           Inl e \<Rightarrow> Inl e
         | Inr msg \<Rightarrow>
             Inr (emit [CLS1_SendStr (CRLF @ ''****FOUND A WINNER!!!!!!'' @ CRLF),
                        CLS1_SendStr msg, CLS1_SendStr CRLF] s))
      else Inr s)"

text \<open>
  The accel branch. The length passed on is \<^verbatim>\<open>size-sizeof(RADIO_PREFIX_STR)-1\<close>, computed
  in \<^verbatim>\<open>size_t\<close> (\<^verbatim>\<open>sizeof\<close> counts the terminator of the prefix): it wraps around for a
  recorded size below 5.
\<close>

definition HandleMessage_accel :: "Platform \<Rightarrow> string \<Rightarrow> RADIO_State \<Rightarrow> error + RADIO_State" where
  "HandleMessage_accel pl slot s =
     (case slot_read slot 1 of
        Inl e \<Rightarrow> Inl e
      | Inr sz \<Rightarrow>
          (case slot_cstr slot (2 + length RADIO_PREFIX_STR) of
             Inl e \<Rightarrow> Inl e
           | Inr msg \<Rightarrow>
               Inr (emit [REMOTE_ParseMsg msg
                            (nat ((int (val_of sz) - int (length RADIO_PREFIX_STR + 1) - 1)
                                  mod 2 ^ SIZE_T_BITS pl))] s)))"

definition RADIO_HandleMessage ::
  "Platform \<Rightarrow> smac_driver \<Rightarrow> string \<Rightarrow> RADIO_State \<Rightarrow> (error + RADIO_State) option" where
  "RADIO_HandleMessage pl drv slot s =
     (case slot_read slot 0 of
        Inl e \<Rightarrow> Some (Inl e)
      | Inr kind \<Rightarrow>
          if RADIO_isSniffing s \<and> kind = kind_byte RADIO_QUEUE_MSG_SNIFF
            then Some (HandleMessage_sniff slot s)
          else if kind = kind_byte RADIO_QUEUE_MSG_CONTEST_QUESTION
            then HandleMessage_question pl drv slot s
          else if kind = kind_byte RADIO_QUEUE_MSG_CONTEST_ANSWER
            then Some (HandleMessage_answer slot s)
          else if PL_HAS_REMOTE_MOTOR pl \<and> kind = kind_byte RADIO_QUEUE_MSG_ACCEL
            then Some (HandleMessage_accel pl slot s)
          else Some (Inr s))"

text \<open>
  \<^verbatim>\<open>RADIO_Handle\<close>: \<open>behind\<close> is what lies in memory behind the local \<^verbatim>\<open>buf\<close> that
  receives the slot.
\<close>

definition RADIO_Handle ::
  "Platform \<Rightarrow> smac_driver \<Rightarrow> string \<Rightarrow> RADIO_State \<Rightarrow> (error + RADIO_State) option" where
  "RADIO_Handle pl drv behind s =
     (let s1 = (if RADIO_isOn s then RADIO_HandleState pl drv s else s) in
      case xQueueReceive (RADIO_MsgQueue s1) of
        None \<Rightarrow> Some (Inr s1)
      | Some (buf, q) \<Rightarrow> RADIO_HandleMessage pl drv (buf @ behind) (s1\<lparr>RADIO_MsgQueue := q\<rparr>))"

subsection \<open>The state after start-up\<close>

text \<open>
  The initialisers of the static variables, with the queue created empty: the state
  \<^verbatim>\<open>RADIO_Init\<close> leaves behind. \<open>platform0\<close> is a configuration with a 125-byte radio
  buffer, no remote control and a 16-bit \<^verbatim>\<open>size_t\<close>.
\<close>

definition static_init :: RADIO_State where
  "static_init =
     \<lparr>RADIO_AppStatus = RADIO_INITIAL_STATE, RADIO_isOn = True, RADIO_isSniffing = False,
      RADIO_isContest = False, RADIO_Channel = 5, ContestCalcExpectedResultStr = [],
      RADIO_TxDataBuffer = [], RADIO_TxPacket_u8DataLength = 0, RADIO_MsgQueue = [],
      trace = []\<rparr>"

definition platform0 :: Platform where
  "platform0 = \<lparr>SMAC1_RADIO_BUF_SIZE = 125, PL_HAS_REMOTE_MOTOR = False, REMOTE_ACCEL_PREFIX = [],
                 SIZE_T_BITS = 16\<rparr>"

section \<open>Properties\<close>

subsection \<open>Auxiliary facts\<close>

lemma QueueMessage_frame:
  "trace (QueueMessage b k m n s) = trace s"
  "RADIO_AppStatus (QueueMessage b k m n s) = RADIO_AppStatus s"
  "RADIO_isContest (QueueMessage b k m n s) = RADIO_isContest s"
  "RADIO_TxDataBuffer (QueueMessage b k m n s) = RADIO_TxDataBuffer s"
  "RADIO_TxPacket_u8DataLength (QueueMessage b k m n s) = RADIO_TxPacket_u8DataLength s"
  by (simp_all add: QueueMessage_def split: prod.split)

lemma val_of_eq_0: "val_of c = 0 \<longleftrightarrow> c = CHR 0x00"
proof -
  have "val_of c = val_of (CHR 0x00) \<longleftrightarrow> c = CHR 0x00"
    unfolding val_of_def by (rule of_char_eq_iff)
  then show ?thesis by (simp add: val_of_def)
qed

lemma val_of_inj: "val_of x = val_of y \<longleftrightarrow> x = y"
  by (simp add: val_of_def)

text \<open>The bounded comparison with the length of a string tests for that prefix.\<close>

lemma strncmp_prefix:
  "CHR 0x00 \<notin> set t \<Longrightarrow> UTIL1_strncmp d t (length t) = 0 \<longleftrightarrow> take (length t) d = t"
proof (induction t arbitrary: d)
  case Nil
  then show ?case by simp
next
  case (Cons y t)
  show ?case
  proof (cases d)
    case Nil
    with Cons.prems show ?thesis by (auto simp: val_of_eq_0)
  next
    case (Cons x d')
    with Cons.prems Cons.IH [of d'] show ?thesis by (auto simp: val_of_inj)
  qed
qed

text \<open>A payload that starts with the letter E is no contest message.\<close>

lemma xatoi_E: "UTIL1_xatoi (CHR ''E'' # r) = None"
  by (simp add: UTIL1_xatoi_def xatoi_radix_def code_of_def val_of_def)

lemma IsContestMessage_E: "IsContestMessage (CHR ''E'' # r) = None"
  by (simp add: IsContestMessage_def xatoi_E)

text \<open>The busy loop, unfolded once.\<close>

lemma busy_drain_ready:
  "RADIO_AppStatus s = RADIO_READY_FOR_TX_RX_DATA \<Longrightarrow> busy_drain pl drv s = Some s"
  by (subst busy_drain.simps) simp

lemma busy_drain_step:
  "RADIO_AppStatus s \<noteq> RADIO_READY_FOR_TX_RX_DATA \<Longrightarrow>
   busy_drain pl drv s = busy_drain pl drv (RADIO_HandleState pl drv s)"
  by (subst busy_drain.simps) simp

subsection \<open>The classifier\<close>

text \<open>
  Claim C2. A receive completion with status Success raises exactly one event. It is the
  Ack event exactly when the state is WaitingForAck and the bounded comparison of the
  payload with the prefix+ack literal gives 0. A payload equal to the literal that arrives
  in any other state raises the Data event (it is no contest message, so it reaches the
  prefix branch).
\<close>

theorem C2_ack_classification:
  assumes "u8Status p = SMAC1_SUCCESS"
  shows "(\<exists>ev. trace (RADIO_DataIndicationPacket pl junk p s) = trace s @ [EVNT_SetEvent ev]
            \<and> (ev = EVNT_RADIO_ACK \<longleftrightarrow>
                 RADIO_AppStatus s = RADIO_WAITING_FOR_ACK
                 \<and> UTIL1_strncmp (cstr (pu8Data p)) (RADIO_PREFIX_STR @ RADIO_ACK_STR)
                       (length (RADIO_PREFIX_STR @ RADIO_ACK_STR)) = 0))
       \<and> (if RADIO_AppStatus s \<noteq> RADIO_WAITING_FOR_ACK
              \<and> cstr (pu8Data p) = RADIO_PREFIX_STR @ RADIO_ACK_STR
           then IsContestMessage (cstr (pu8Data p)) = None
              \<and> trace (RADIO_DataIndicationPacket pl junk p s)
                  = trace s @ [EVNT_SetEvent EVNT_RADIO_DATA]
           else True)"
proof -
  have one: "\<exists>ev. trace (RADIO_DataIndicationPacket pl junk p s) = trace s @ [EVNT_SetEvent ev]
            \<and> (ev = EVNT_RADIO_ACK \<longleftrightarrow>
                 RADIO_AppStatus s = RADIO_WAITING_FOR_ACK
                 \<and> UTIL1_strncmp (cstr (pu8Data p)) (RADIO_PREFIX_STR @ RADIO_ACK_STR)
                       (length (RADIO_PREFIX_STR @ RADIO_ACK_STR)) = 0)"
    using assms
    by (auto simp: RADIO_DataIndicationPacket_def Let_def emit_def QueueMessage_frame
             split: option.splits)
  have two: "IsContestMessage (cstr (pu8Data p)) = None
              \<and> trace (RADIO_DataIndicationPacket pl junk p s)
                  = trace s @ [EVNT_SetEvent EVNT_RADIO_DATA]"
    if "RADIO_AppStatus s \<noteq> RADIO_WAITING_FOR_ACK"
       "cstr (pu8Data p) = RADIO_PREFIX_STR @ RADIO_ACK_STR"
    using assms that
    by (simp add: RADIO_DataIndicationPacket_def Let_def emit_def QueueMessage_frame
          RADIO_PREFIX_STR_def RADIO_ACK_STR_def IsContestMessage_E)
  from one two show ?thesis by simp
qed

text \<open>
  The literal received after start-up with contest mode on, and received while waiting
  for the acknowledgment.
\<close>

theorem C2_ack_classification_witness:
  "trace (RADIO_DataIndicationPacket platform0 (replicate 32 CHR ''z'')
            \<lparr>u8Status = SMAC1_SUCCESS, pu8Data = ''ESTack'' @ [CHR 0x00], u8DataLength = 7\<rparr>
            (static_init\<lparr>RADIO_isContest := True\<rparr>))
     = [EVNT_SetEvent EVNT_RADIO_DATA]
   \<and> (\<exists>ev. trace (RADIO_DataIndicationPacket platform0 (replicate 32 CHR ''z'')
            \<lparr>u8Status = SMAC1_SUCCESS, pu8Data = ''ESTack'' @ [CHR 0x00], u8DataLength = 7\<rparr>
            (static_init\<lparr>RADIO_AppStatus := RADIO_WAITING_FOR_ACK\<rparr>))
          = [EVNT_SetEvent ev] \<and> ev = EVNT_RADIO_ACK)"
proof -
  let ?p = "\<lparr>u8Status = SMAC1_SUCCESS, pu8Data = ''ESTack'' @ [CHR 0x00], u8DataLength = 7\<rparr>"
  have st: "u8Status ?p = SMAC1_SUCCESS" by simp
  have a: "trace (RADIO_DataIndicationPacket platform0 (replicate 32 CHR ''z'') ?p
                    (static_init\<lparr>RADIO_isContest := True\<rparr>))
           = [EVNT_SetEvent EVNT_RADIO_DATA]"
    using C2_ack_classification [OF st, where s = "static_init\<lparr>RADIO_isContest := True\<rparr>"
            and pl = platform0 and junk = "replicate 32 CHR ''z''"]
    by (simp add: static_init_def cstr_def RADIO_PREFIX_STR_def RADIO_ACK_STR_def)
  have b: "\<exists>ev. trace (RADIO_DataIndicationPacket platform0 (replicate 32 CHR ''z'') ?p
                    (static_init\<lparr>RADIO_AppStatus := RADIO_WAITING_FOR_ACK\<rparr>))
           = [EVNT_SetEvent ev] \<and> ev = EVNT_RADIO_ACK"
    using C2_ack_classification [OF st, where pl = platform0 and junk = "replicate 32 CHR ''z''"
            and s = "static_init\<lparr>RADIO_AppStatus := RADIO_WAITING_FOR_ACK\<rparr>"]
    by (simp add: static_init_def cstr_def RADIO_PREFIX_STR_def RADIO_ACK_STR_def)
  from a b show ?thesis by simp
qed

subsection \<open>The state machine\<close>

text \<open>
  Claim C3. One step in state TransmitData: if the request to disable the receiver fails,
  the state stays TransmitData and nothing but that request is issued (no transmit); if
  it succeeds, the transmit request follows; on its success the receiver is armed again
  with the timeout and the next state is WaitingForAck with contest mode off and
  ReceiveAlwaysOn with contest mode on; on its failure the next state is ReceiveAlwaysOn.
\<close>

theorem C3_transmit_data_step:
  assumes "RADIO_AppStatus s = RADIO_TRANSMIT_DATA"
  shows "(let t1 = trace s @ [SMAC1_MLMERXDisableRequest];
              t2 = t1 @ [LED1_Neg,
                         SMAC1_MCPSDataRequest
                           \<lparr>tx_u8DataLength = RADIO_TxPacket_u8DataLength s,
                            tx_pu8Data = RADIO_TxDataBuffer s\<rparr>];
              s' = RADIO_HandleState pl drv s
          in if \<not> drv t1 then RADIO_AppStatus s' = RADIO_TRANSMIT_DATA \<and> trace s' = t1
             else if drv t2 then
               trace s' = t2 @ [SMAC1_MLMERXEnableRequest RADIO_TIMEOUT_COUNT]
               \<and> RADIO_AppStatus s' =
                   (if RADIO_isContest s then RADIO_RECEIVER_ALWAYS_ON
                    else RADIO_WAITING_FOR_ACK)
             else RADIO_AppStatus s' = RADIO_RECEIVER_ALWAYS_ON \<and> trace s' = t2)"
  using assms by (simp add: RADIO_HandleState_def Let_def emit_def)

text \<open>
  The three outcomes, with a driver that refuses everything, one that accepts everything
  and one that accepts only the request to disable the receiver.
\<close>

theorem C3_transmit_data_step_witness:
  "RADIO_AppStatus (RADIO_HandleState platform0 (\<lambda>t. False)
       (static_init\<lparr>RADIO_AppStatus := RADIO_TRANSMIT_DATA\<rparr>)) = RADIO_TRANSMIT_DATA
   \<and> RADIO_AppStatus (RADIO_HandleState platform0 (\<lambda>t. True)
       (static_init\<lparr>RADIO_AppStatus := RADIO_TRANSMIT_DATA\<rparr>)) = RADIO_WAITING_FOR_ACK
   \<and> RADIO_AppStatus (RADIO_HandleState platform0 (\<lambda>t. True)
       (static_init\<lparr>RADIO_AppStatus := RADIO_TRANSMIT_DATA, RADIO_isContest := True\<rparr>))
       = RADIO_RECEIVER_ALWAYS_ON
   \<and> RADIO_AppStatus (RADIO_HandleState platform0 (\<lambda>t. length t = 1)
       (static_init\<lparr>RADIO_AppStatus := RADIO_TRANSMIT_DATA\<rparr>)) = RADIO_RECEIVER_ALWAYS_ON"
proof -
  let ?s = "static_init\<lparr>RADIO_AppStatus := RADIO_TRANSMIT_DATA\<rparr>"
  let ?c = "static_init\<lparr>RADIO_AppStatus := RADIO_TRANSMIT_DATA, RADIO_isContest := True\<rparr>"
  have h: "RADIO_AppStatus ?s = RADIO_TRANSMIT_DATA" by simp
  have hc: "RADIO_AppStatus ?c = RADIO_TRANSMIT_DATA" by simp
  have a: "RADIO_AppStatus (RADIO_HandleState platform0 (\<lambda>t. False) ?s) = RADIO_TRANSMIT_DATA"
    using C3_transmit_data_step [OF h, where drv = "\<lambda>t. False" and pl = platform0] by (simp add: Let_def)
  have b: "RADIO_AppStatus (RADIO_HandleState platform0 (\<lambda>t. True) ?s) = RADIO_WAITING_FOR_ACK"
    using C3_transmit_data_step [OF h, where drv = "\<lambda>t. True" and pl = platform0]
    by (simp add: Let_def static_init_def)
  have c: "RADIO_AppStatus (RADIO_HandleState platform0 (\<lambda>t. True) ?c) = RADIO_RECEIVER_ALWAYS_ON"
    using C3_transmit_data_step [OF hc, where drv = "\<lambda>t. True" and pl = platform0]
    by (simp add: Let_def static_init_def)
  have d: "RADIO_AppStatus (RADIO_HandleState platform0 (\<lambda>t. length t = 1) ?s)
           = RADIO_RECEIVER_ALWAYS_ON"
    using C3_transmit_data_step [OF h, where drv = "\<lambda>t. length t = 1" and pl = platform0]
    by (simp add: Let_def static_init_def)
  from a b c d show ?thesis by simp
qed

subsection \<open>The event handler\<close>

text \<open>
  Claim C4. For each of the six radio events and every state, the event handler sends
  one diagnostic message to the shell and assigns the radio state of the fixed mapping:
  Reset to Reset, Timeout, Ack, Overflow and Unknown to ReceiveAlwaysOn, Data to
  TransmitAck.
\<close>

theorem C4_event_handler_mapping:
  "RADIO_AppStatus (RADIO_AppHandleEvent EVNT_RADIO_RESET s) = RADIO_RESET_STATE
   \<and> RADIO_AppStatus (RADIO_AppHandleEvent EVNT_RADIO_TIMEOUT s) = RADIO_RECEIVER_ALWAYS_ON
   \<and> RADIO_AppStatus (RADIO_AppHandleEvent EVNT_RADIO_ACK s) = RADIO_RECEIVER_ALWAYS_ON
   \<and> RADIO_AppStatus (RADIO_AppHandleEvent EVNT_RADIO_OVERFLOW s) = RADIO_RECEIVER_ALWAYS_ON
   \<and> RADIO_AppStatus (RADIO_AppHandleEvent EVNT_RADIO_DATA s) = RADIO_TRANSMIT_ACK
   \<and> RADIO_AppStatus (RADIO_AppHandleEvent EVNT_RADIO_UNKNOWN s) = RADIO_RECEIVER_ALWAYS_ON
   \<and> trace (RADIO_AppHandleEvent EVNT_RADIO_RESET s)
       = trace s @ [SHELL_SendMessage (''RADIO reset'' @ CRLF)]
   \<and> trace (RADIO_AppHandleEvent EVNT_RADIO_TIMEOUT s)
       = trace s @ [SHELL_SendMessage (''RADIO timeout'' @ CRLF)]
   \<and> trace (RADIO_AppHandleEvent EVNT_RADIO_ACK s)
       = trace s @ [SHELL_SendMessage (''RADIO rx ack'' @ CRLF)]
   \<and> trace (RADIO_AppHandleEvent EVNT_RADIO_OVERFLOW s)
       = trace s @ [SHELL_SendMessage (''RADIO overflow'' @ CRLF)]
   \<and> trace (RADIO_AppHandleEvent EVNT_RADIO_DATA s)
       = trace s @ [SHELL_SendMessage (''RADIO rx data, going to tx ACK'' @ CRLF)]
   \<and> trace (RADIO_AppHandleEvent EVNT_RADIO_UNKNOWN s)
       = trace s @ [SHELL_SendMessage (''RADIO unknown'' @ CRLF)]"
  by (simp add: emit_def)

text \<open>
  Claim C8. A receive completion with status Timeout in state WaitingForAck raises the
  Timeout event (and toggles the two LEDs); handling that event sets the state to
  ReceiveAlwaysOn; the transmit buffer and the transmit packet descriptor are the same
  after each of the two steps.
\<close>

theorem C8_timeout_path:
  assumes "u8Status p = SMAC1_TIMEOUT" and "RADIO_AppStatus s = RADIO_WAITING_FOR_ACK"
  shows "(let s1 = RADIO_DataIndicationPacket pl junk p s;
              s2 = RADIO_AppHandleEvent EVNT_RADIO_TIMEOUT s1
          in trace s1 = trace s @ [LED1_Neg, LED2_Neg, EVNT_SetEvent EVNT_RADIO_TIMEOUT]
           \<and> RADIO_AppStatus s2 = RADIO_RECEIVER_ALWAYS_ON
           \<and> RADIO_TxDataBuffer s1 = RADIO_TxDataBuffer s
           \<and> RADIO_TxPacket_u8DataLength s1 = RADIO_TxPacket_u8DataLength s
           \<and> RADIO_TxDataBuffer s2 = RADIO_TxDataBuffer s
           \<and> RADIO_TxPacket_u8DataLength s2 = RADIO_TxPacket_u8DataLength s)"
  using assms by (simp add: RADIO_DataIndicationPacket_def Let_def emit_def)

theorem C8_timeout_path_witness:
  "(let s = static_init\<lparr>RADIO_AppStatus := RADIO_WAITING_FOR_ACK,
                         RADIO_TxDataBuffer := ''ESThello'',
                         RADIO_TxPacket_u8DataLength := 9\<rparr>;
        s1 = RADIO_DataIndicationPacket platform0 (replicate 32 CHR ''z'')
               \<lparr>u8Status = SMAC1_TIMEOUT, pu8Data = [], u8DataLength = 0\<rparr> s;
        s2 = RADIO_AppHandleEvent EVNT_RADIO_TIMEOUT s1
    in trace s1 = [LED1_Neg, LED2_Neg, EVNT_SetEvent EVNT_RADIO_TIMEOUT]
     \<and> RADIO_AppStatus s2 = RADIO_RECEIVER_ALWAYS_ON
     \<and> RADIO_TxDataBuffer s2 = ''ESThello''
     \<and> RADIO_TxPacket_u8DataLength s2 = 9)"
proof -
  let ?s = "static_init\<lparr>RADIO_AppStatus := RADIO_WAITING_FOR_ACK,
                         RADIO_TxDataBuffer := ''ESThello'',
                         RADIO_TxPacket_u8DataLength := 9\<rparr>"
  let ?p = "\<lparr>u8Status = SMAC1_TIMEOUT, pu8Data = [], u8DataLength = 0\<rparr>"
  have h1: "u8Status ?p = SMAC1_TIMEOUT" by simp
  have h2: "RADIO_AppStatus ?s = RADIO_WAITING_FOR_ACK" by simp
  show ?thesis
    using C8_timeout_path [OF h1 h2, where pl = platform0 and junk = "replicate 32 CHR ''z''"]
    by (simp add: Let_def static_init_def)
qed

subsection \<open>Sending with the radio off\<close>

text \<open>
  Claim C9. With the radio-on flag false, \<^verbatim>\<open>RADIO_SendString\<close> and
  \<^verbatim>\<open>RADIO_SendStringRaw\<close> return at once and the whole state is as before: the state
  machine has not been stepped, nothing is written to the transmit buffer or to the
  packet descriptor, the radio state is unchanged and no call has been made.
\<close>

theorem C9_send_when_off:
  assumes "\<not> RADIO_isOn s"
  shows "RADIO_SendString pl drv data s = Some s \<and> RADIO_SendStringRaw pl drv data s = Some s"
  using assms by (simp add: RADIO_SendString_def RADIO_SendStringRaw_def)

theorem C9_send_when_off_witness:
  "\<not> RADIO_isOn (static_init\<lparr>RADIO_isOn := False\<rparr>)
   \<and> RADIO_SendString platform0 (\<lambda>t. True) ''hello'' (static_init\<lparr>RADIO_isOn := False\<rparr>)
       = Some (static_init\<lparr>RADIO_isOn := False\<rparr>)
   \<and> RADIO_SendStringRaw platform0 (\<lambda>t. True) ''hello'' (static_init\<lparr>RADIO_isOn := False\<rparr>)
       = Some (static_init\<lparr>RADIO_isOn := False\<rparr>)"
proof -
  have h: "\<not> RADIO_isOn (static_init\<lparr>RADIO_isOn := False\<rparr>)" by simp
  show ?thesis
    using h C9_send_when_off [OF h, where pl = platform0 and drv = "\<lambda>t. True" and data = "''hello''"] by simp
qed

subsection \<open>The enqueue operation\<close>

text \<open>The copy loop writes the payload behind the first \<open>i\<close> bytes, as far as the buffer goes.\<close>

lemma QueueMessage_copy_eq:
  "i \<le> length buf \<Longrightarrow> n \<le> length msg \<Longrightarrow>
   QueueMessage_copy buf i msg n =
     take i buf @ take (min n (length buf - i)) msg @ drop (i + min n (length buf - i)) buf"
proof (induction n arbitrary: buf i msg)
  case 0
  then show ?case by simp
next
  case (Suc n)
  show ?case
  proof (cases "i < length buf")
    case False
    with Suc.prems show ?thesis by simp
  next
    case True
    from Suc.prems obtain x msg' where msg: "msg = x # msg'" by (cases msg) auto
    have "QueueMessage_copy (buf[i := x]) (Suc i) msg' n =
        take (Suc i) (buf[i := x]) @ take (min n (length (buf[i := x]) - Suc i)) msg'
          @ drop (Suc i + min n (length (buf[i := x]) - Suc i)) (buf[i := x])"
      using Suc.prems True msg by (intro Suc.IH) auto
    moreover have "take (Suc i) (buf[i := x]) = take i buf @ [x]"
      using True by (simp add: take_Suc_conv_app_nth)
    moreover have "min (Suc n) (length buf - i) = Suc (min n (length buf - Suc i))"
      using True by auto
    ultimately show ?thesis using True msg by simp
  qed
qed

lemma QueueMessage_buf_eq:
  assumes "length junk = 32" and "unat msgSize \<le> length msg"
  shows "QueueMessage_buf junk kind msg msgSize =
           kind # byte_of (unat msgSize) # take (min (unat msgSize) 30) msg
             @ drop (2 + min (unat msgSize) 30) junk"
proof -
  obtain j0 j1 rest where junk: "junk = j0 # j1 # rest" and rest: "length rest = 30"
    using assms(1) by (cases junk; cases "tl junk") auto
  have "QueueMessage_buf junk kind msg msgSize =
      QueueMessage_copy (kind # byte_of (unat msgSize) # rest) 2 msg (unat msgSize)"
    by (simp add: QueueMessage_buf_def junk)
  also have "\<dots> = take 2 (kind # byte_of (unat msgSize) # rest)
        @ take (min (unat msgSize) (length (kind # byte_of (unat msgSize) # rest) - 2)) msg
        @ drop (2 + min (unat msgSize) (length (kind # byte_of (unat msgSize) # rest) - 2))
            (kind # byte_of (unat msgSize) # rest)"
    using assms(2) rest by (intro QueueMessage_copy_eq) auto
  finally show ?thesis using rest by (simp add: junk)
qed

lemma val_of_byte_of: "n < 256 \<Longrightarrow> val_of (byte_of n) = n"
  by (simp add: val_of_def byte_of_def)

lemma unat_u8_less: "unat (w :: 8 word) < 256"
  using unsigned_less [of w, where 'a = nat] by simp

text \<open>
  Claim C5. For every kind, payload and length, the slot built by the enqueue operation
  has the slot size of 32 bytes: the kind byte, the length byte and the first
  \<open>min msgSize 30\<close> bytes of the payload (a longer payload is cut there); the bytes behind
  them are what the uninitialised buffer held. The slot is appended to a queue that has
  room; on a full queue the operation changes nothing at all: the message is dropped, the
  operation returns no result, and no call is made that could block or notify.
\<close>

theorem C5_enqueue_encoding:
  assumes "length junk = RADIO_QUEUE_ITEM_SIZE" and "unat msgSize \<le> length msg"
  shows "(let slot = QueueMessage_buf junk kind msg msgSize; n = min (unat msgSize) 30
          in length slot = RADIO_QUEUE_ITEM_SIZE
             \<and> slot ! 0 = kind
             \<and> val_of (slot ! 1) = unat msgSize
             \<and> take n (drop 2 slot) = take n msg
             \<and> drop (2 + n) slot = drop (2 + n) junk)
       \<and> QueueMessage junk kind msg msgSize s =
           (if length (RADIO_MsgQueue s) < RADIO_QUEUE_NOF_ITEMS
            then s\<lparr>RADIO_MsgQueue := RADIO_MsgQueue s @ [QueueMessage_buf junk kind msg msgSize]\<rparr>
            else s)"
proof -
  have j: "length junk = 32" using assms(1) by (simp add: RADIO_QUEUE_ITEM_SIZE_def)
  note eq = QueueMessage_buf_eq [OF j assms(2), of kind]
  have len: "length (QueueMessage_buf junk kind msg msgSize) = 32"
    using j assms(2) by (simp add: eq min_def)
  have a: "(let slot = QueueMessage_buf junk kind msg msgSize; n = min (unat msgSize) 30
          in length slot = RADIO_QUEUE_ITEM_SIZE
             \<and> slot ! 0 = kind
             \<and> val_of (slot ! 1) = unat msgSize
             \<and> take n (drop 2 slot) = take n msg
             \<and> drop (2 + n) slot = drop (2 + n) junk)"
    using j assms(2) len
    by (simp add: Let_def eq RADIO_QUEUE_ITEM_SIZE_def val_of_byte_of unat_u8_less min_def)
  have b: "QueueMessage junk kind msg msgSize s =
           (if length (RADIO_MsgQueue s) < RADIO_QUEUE_NOF_ITEMS
            then s\<lparr>RADIO_MsgQueue := RADIO_MsgQueue s @ [QueueMessage_buf junk kind msg msgSize]\<rparr>
            else s)"
    using len by (simp add: QueueMessage_def xQueueSendToBackFromISR_def RADIO_QUEUE_ITEM_SIZE_def)
  from a b show ?thesis by simp
qed

text \<open>A payload of 40 bytes sent to a full queue, and to the empty queue.\<close>

theorem C5_enqueue_encoding_witness:
  "(let junk = replicate 32 CHR ''z''; msg = replicate 40 CHR ''a'';
        full = static_init\<lparr>RADIO_MsgQueue := replicate 8 junk\<rparr>;
        slot = QueueMessage_buf junk (kind_byte RADIO_QUEUE_MSG_SNIFF) msg 40
    in length slot = 32 \<and> val_of (slot ! 1) = 40 \<and> drop 2 slot = replicate 30 CHR ''a''
       \<and> QueueMessage junk (kind_byte RADIO_QUEUE_MSG_SNIFF) msg 40 full = full
       \<and> RADIO_MsgQueue (QueueMessage junk (kind_byte RADIO_QUEUE_MSG_SNIFF) msg 40 static_init)
           = [slot])"
proof -
  let ?junk = "replicate 32 CHR ''z''"
  let ?msg = "replicate 40 CHR ''a''"
  have h1: "length ?junk = RADIO_QUEUE_ITEM_SIZE" by (simp add: RADIO_QUEUE_ITEM_SIZE_def)
  have h2: "unat (40 :: 8 word) \<le> length ?msg" by simp
  define slot where "slot = QueueMessage_buf ?junk (kind_byte RADIO_QUEUE_MSG_SNIFF) ?msg 40"
  have m: "min (unat (40 :: 8 word)) 30 = 30" by simp
  from C5_enqueue_encoding [OF h1 h2, where kind = "kind_byte RADIO_QUEUE_MSG_SNIFF"
            and s = static_init]
  have L: "length slot = 32" and V: "val_of (slot ! 1) = 40"
    and T: "take 30 (drop 2 slot) = take 30 ?msg"
    unfolding Let_def m slot_def [symmetric] by (simp_all add: RADIO_QUEUE_ITEM_SIZE_def)
  have "drop 2 slot = take 30 (drop 2 slot)" using L by simp
  also have "\<dots> = replicate 30 CHR ''a''" unfolding T by simp
  finally have D: "drop 2 slot = replicate 30 CHR ''a''" .
  have a: "(let slot = QueueMessage_buf ?junk (kind_byte RADIO_QUEUE_MSG_SNIFF) ?msg 40
            in length slot = 32 \<and> val_of (slot ! 1) = 40 \<and> drop 2 slot = replicate 30 CHR ''a'')"
    unfolding Let_def slot_def [symmetric] using L V D by simp
  have b: "QueueMessage ?junk (kind_byte RADIO_QUEUE_MSG_SNIFF) ?msg 40
             (static_init\<lparr>RADIO_MsgQueue := replicate 8 ?junk\<rparr>)
           = static_init\<lparr>RADIO_MsgQueue := replicate 8 ?junk\<rparr>"
    using C5_enqueue_encoding [OF h1 h2, where kind = "kind_byte RADIO_QUEUE_MSG_SNIFF"
            and s = "static_init\<lparr>RADIO_MsgQueue := replicate 8 ?junk\<rparr>"]
    by (simp add: RADIO_QUEUE_NOF_ITEMS_def)
  have c: "RADIO_MsgQueue (QueueMessage ?junk (kind_byte RADIO_QUEUE_MSG_SNIFF) ?msg 40 static_init)
           = [QueueMessage_buf ?junk (kind_byte RADIO_QUEUE_MSG_SNIFF) ?msg 40]"
    using C5_enqueue_encoding [OF h1 h2, where kind = "kind_byte RADIO_QUEUE_MSG_SNIFF"
            and s = static_init]
    by (simp add: RADIO_QUEUE_NOF_ITEMS_def static_init_def)
  from a b c show ?thesis by (simp add: Let_def)
qed

text \<open>Effects emitted one after the other are emitted together.\<close>

lemma emit_emit: "emit b (emit a s) = emit (a @ b) s"
  by (simp add: emit_def)

lemma oob_reads_Cons: "oob_reads (off # offs) = oob_reads [off] @ oob_reads offs"
  by (simp add: oob_reads_def)

lemma oob_reads_Nil: "oob_reads [] = []"
  by (simp add: oob_reads_def)

lemma oob_reads_inside: "off < 32 \<Longrightarrow> oob_reads [off] = []"
  by (simp add: oob_reads_def RADIO_QUEUE_ITEM_SIZE_def)

lemma oob_reads_upt: "a \<le> 32 \<Longrightarrow> oob_reads [a..<b] = map OutOfBoundsRead [32..<b]"
proof -
  assume a: "a \<le> 32"
  have "filter (\<lambda>k. 32 \<le> k) [a..<b] = [32..<b]"
    using a by (induction b) auto
  then show ?thesis by (simp add: oob_reads_def RADIO_QUEUE_ITEM_SIZE_def)
qed

text \<open>
  Where the memory behind the copy is known, the hex dump runs over every index below the
  recorded length, and the ASCII loop over every index below the length and below 32; each
  records its reads at offset 32 and above.
\<close>

lemma sniff_hex_run:
  assumes "2 + len \<le> length slot"
  shows "i \<le> len \<Longrightarrow>
         \<exists>buf'. sniff_hex slot len i rds buf = Inr (rds @ oob_reads [2 + i..<2 + len], buf')"
proof (induction "len - i" arbitrary: i rds buf)
  case 0
  from "0.hyps" "0.prems" have "i = len" by arith
  then show ?case by (simp add: sniff_hex.simps [of slot len len] oob_reads_Nil)
next
  case (Suc n)
  from Suc.hyps(2) have i: "i < len" by arith
  then have off: "2 + i < length slot" using assms by simp
  have u: "[2 + i..<2 + len] = (2 + i) # [2 + Suc i..<2 + len]"
    using i by (simp add: upt_conv_Cons)
  have split: "oob_reads [2 + i..<2 + len]
               = oob_reads [2 + i] @ oob_reads [2 + Suc i..<2 + len]"
    unfolding u by (rule oob_reads_Cons)
  have step: "sniff_hex slot len i rds buf =
      sniff_hex slot len (Suc i) (rds @ oob_reads [2 + i])
        (UTIL1_strcat (UTIL1_strcatNum8Hex buf 32 (slot ! (2 + i))) 32 '' '')"
    using i off by (simp add: sniff_hex.simps [of slot len i] msg_read_def)
  from Suc.hyps(2) i have "n = len - Suc i" and "Suc i \<le> len" by arith+
  from Suc.hyps(1) [OF this] obtain buf' where
    "sniff_hex slot len (Suc i) (rds @ oob_reads [2 + i])
       (UTIL1_strcat (UTIL1_strcatNum8Hex buf 32 (slot ! (2 + i))) 32 '' '')
     = Inr ((rds @ oob_reads [2 + i]) @ oob_reads [2 + Suc i..<2 + len], buf')"
    by blast
  then have "sniff_hex slot len i rds buf = Inr (rds @ oob_reads [2 + i..<2 + len], buf')"
    by (simp only: step split append_assoc)
  then show ?case by blast
qed

lemma sniff_ascii_run_bound:
  assumes "2 + m \<le> length slot" and "m \<le> len" and "m \<le> 32" and "m = len \<or> m = 32"
  shows "i \<le> m \<Longrightarrow>
         \<exists>buf'. sniff_ascii slot len i rds buf = Inr (rds @ oob_reads [2 + i..<2 + m], buf')"
proof (induction "m - i" arbitrary: i rds buf)
  case 0
  from "0.hyps" "0.prems" have e: "i = m" by arith
  with assms(4) have "(i < len \<and> i < 32) = False" by auto
  then have "sniff_ascii slot len i rds buf = Inr (rds, buf)"
    by (subst sniff_ascii.simps) (simp only: if_False)
  then show ?case unfolding e by (simp add: oob_reads_Nil)
next
  case (Suc n)
  from Suc.hyps(2) have i: "i < m" by arith
  then have off: "2 + i < length slot" using assms(1) by arith
  from i assms(2) assms(3) have il: "i < len \<and> i < 32" by arith
  have u: "[2 + i..<2 + m] = (2 + i) # [2 + Suc i..<2 + m]"
    using i by (simp add: upt_conv_Cons)
  have split: "oob_reads [2 + i..<2 + m] = oob_reads [2 + i] @ oob_reads [2 + Suc i..<2 + m]"
    unfolding u by (rule oob_reads_Cons)
  have step: "sniff_ascii slot len i rds buf =
      sniff_ascii slot len (Suc i) (rds @ oob_reads [2 + i]) (UTIL1_chcat buf 32 (slot ! (2 + i)))"
    using il off by (simp add: sniff_ascii.simps [of slot len i] msg_read_def)
  from Suc.hyps(2) i have "n = m - Suc i" and "Suc i \<le> m" by arith+
  from Suc.hyps(1) [OF this] obtain buf' where
    "sniff_ascii slot len (Suc i) (rds @ oob_reads [2 + i]) (UTIL1_chcat buf 32 (slot ! (2 + i)))
     = Inr ((rds @ oob_reads [2 + i]) @ oob_reads [2 + Suc i..<2 + m], buf')"
    by blast
  then have "sniff_ascii slot len i rds buf = Inr (rds @ oob_reads [2 + i..<2 + m], buf')"
    by (simp only: step split append_assoc)
  then show ?case by blast
qed

lemma sniff_ascii_run:
  assumes "2 + min len 32 \<le> length slot"
  shows "\<exists>buf'. sniff_ascii slot len 0 rds buf
                  = Inr (rds @ oob_reads [2 + 0..<2 + min len 32], buf')"
proof -
  have b: "min len 32 \<le> len" "min len 32 \<le> 32" "min len 32 = len \<or> min len 32 = 32"
    by arith+
  have z: "0 \<le> min len 32" by (rule le0)
  show ?thesis by (rule sniff_ascii_run_bound [OF assms b z])
qed

text \<open>
  Where nothing is known behind the 32 bytes of the copy and the recorded length is above
  30, both loops end at offset 32.
\<close>

lemma sniff_hex_overrun:
  "length slot = 32 \<Longrightarrow> 30 < len \<Longrightarrow> i \<le> 30 \<Longrightarrow>
   sniff_hex slot len i rds buf = Inl (OutOfBounds 32)"
proof (induction "30 - i" arbitrary: i rds buf)
  case 0
  then have "i = 30" by simp
  with 0 show ?case by (simp add: sniff_hex.simps [of slot len 30] msg_read_def)
next
  case (Suc k)
  then have i: "i < 30" by simp
  have "sniff_hex slot len (Suc i) rds
          (UTIL1_strcat (UTIL1_strcatNum8Hex buf 32 (slot ! (2 + i))) 32 '' '')
        = Inl (OutOfBounds 32)"
    using Suc i by (intro Suc.hyps) auto
  with Suc.prems i show ?case
    by (simp add: sniff_hex.simps [of slot len i] msg_read_def oob_reads_inside)
qed

lemma sniff_ascii_overrun:
  "length slot = 32 \<Longrightarrow> 30 < len \<Longrightarrow> i \<le> 30 \<Longrightarrow>
   sniff_ascii slot len i rds buf = Inl (OutOfBounds 32)"
proof (induction "30 - i" arbitrary: i rds buf)
  case 0
  then have "i = 30" by simp
  with 0 show ?case by (simp add: sniff_ascii.simps [of slot len 30] msg_read_def)
next
  case (Suc k)
  then have i: "i < 30" by simp
  have "sniff_ascii slot len (Suc i) rds (UTIL1_chcat buf 32 (slot ! (2 + i)))
        = Inl (OutOfBounds 32)"
    using Suc i by (intro Suc.hyps) auto
  with Suc.prems i show ?case
    by (simp add: sniff_ascii.simps [of slot len i] msg_read_def oob_reads_inside)
qed

lemma HandleMessage_sniff_overrun:
  assumes "length slot = 32" and "30 < val_of (slot ! 1)"
  shows "HandleMessage_sniff slot s = Inl (OutOfBounds 32)"
  using assms sniff_ascii_overrun [OF assms(1) assms(2), of 0 "[]" "[]"]
  by (simp add: HandleMessage_sniff_def slot_read_def Let_def)

text \<open>The sniff branch on a slot with a recorded length above 30 and known memory behind it.\<close>

lemma HandleMessage_sniff_run:
  assumes "length slot = 32" and "30 < val_of (slot ! 1)"
    and "val_of (slot ! 1) \<le> 30 + length behind"
  shows "\<exists>ascii hex. HandleMessage_sniff (slot @ behind) s =
           Inr (emit ([SHELL_SendMessage (sniff_header (RADIO_Channel s) (val_of (slot ! 1)))]
                      @ map OutOfBoundsRead [32..<2 + min (val_of (slot ! 1)) 32]
                      @ [SHELL_SendMessage ascii]
                      @ map OutOfBoundsRead [32..<2 + val_of (slot ! 1)]
                      @ [SHELL_SendMessage hex, SHELL_SendMessage CRLF]) s)"
proof -
  define len where "len = val_of (slot ! 1)"
  define mem where "mem = slot @ behind"
  have l: "30 < len" and lb: "len \<le> 30 + length behind"
    using assms by (simp_all add: len_def)
  have lm: "length mem = 32 + length behind" using assms(1) by (simp add: mem_def)
  have r1: "slot_read mem 1 = Inr (slot ! 1)"
    using assms(1) by (simp add: slot_read_def mem_def nth_append)
  have h: "2 + len \<le> length mem" using lb lm by simp
  have a: "2 + min len 32 \<le> length mem" using lb lm by simp
  have fa: "oob_reads [2 + 0..<2 + min len 32] = map OutOfBoundsRead [32..<2 + min len 32]"
    by (rule oob_reads_upt) simp
  have fh: "oob_reads [2 + 0..<2 + len] = map OutOfBoundsRead [32..<2 + len]"
    by (rule oob_reads_upt) simp
  from sniff_ascii_run [OF a, of "[]" "[]"] obtain ascii where
    ascii: "sniff_ascii mem len 0 [] [] = Inr (map OutOfBoundsRead [32..<2 + min len 32], ascii)"
    unfolding fa by auto
  from sniff_hex_run [OF h, of 0 "[]" "UTIL1_strcat [] 32 '' hex: ''"] obtain hex where
    hex: "sniff_hex mem len 0 [] (UTIL1_strcat [] 32 '' hex: '') =
              Inr (map OutOfBoundsRead [32..<2 + len], hex)"
    unfolding fh by auto
  have "HandleMessage_sniff mem s =
           Inr (emit ([SHELL_SendMessage (sniff_header (RADIO_Channel s) len)]
                      @ map OutOfBoundsRead [32..<2 + min len 32]
                      @ [SHELL_SendMessage ascii]
                      @ map OutOfBoundsRead [32..<2 + len]
                      @ [SHELL_SendMessage hex, SHELL_SendMessage CRLF]) s)"
    by (simp only: HandleMessage_sniff_def r1 sum.case Let_def len_def [symmetric] ascii hex
          prod.case emit_emit append_assoc)
  then show ?thesis unfolding mem_def len_def by blast
qed

text \<open>
  Claim C10. The length byte of a slot is the original payload length. For a payload
  longer than 30 bytes the slot stores 30 payload bytes, fewer than the length it records.
  When the consumer handles such a slot as a sniffed frame, it reads the length byte, and
  its hex dump runs up to that length: between the message of the ASCII loop and the
  message of the hex dump it reads the offsets 32 up to \<open>msgSize + 1\<close>, all behind the
  32-byte copy of the slot (the ASCII loop before it, bounded by 32 as well, reads the
  offsets 32 and 33 at most). Where nothing is known behind the copy, the consumer and the
  hex dump alone end with the read at offset 32.
\<close>

theorem C10_recorded_length_overrun:
  assumes "length junk = 32" and "30 < unat msgSize" and "unat msgSize \<le> length msg"
    and "RADIO_isSniffing s" and "unat msgSize \<le> 30 + length behind"
  shows "(let slot = QueueMessage_buf junk kind msg msgSize;
              sniffed = QueueMessage_buf junk (kind_byte RADIO_QUEUE_MSG_SNIFF) msg msgSize
          in val_of (slot ! 1) = unat msgSize
             \<and> drop 2 slot = take 30 msg
             \<and> length (drop 2 slot) < val_of (slot ! 1)
             \<and> (\<exists>ascii hex.
                   RADIO_HandleMessage pl drv (sniffed @ behind) s =
                     Some (Inr (emit
                       ([SHELL_SendMessage (sniff_header (RADIO_Channel s) (unat msgSize))]
                        @ map OutOfBoundsRead [32..<2 + min (unat msgSize) 32]
                        @ [SHELL_SendMessage ascii]
                        @ map OutOfBoundsRead [32..<2 + unat msgSize]
                        @ [SHELL_SendMessage hex, SHELL_SendMessage CRLF]) s)))
             \<and> RADIO_HandleMessage pl drv sniffed s = Some (Inl (OutOfBounds 32))
             \<and> sniff_hex slot (val_of (slot ! 1)) 0 rds buf = Inl (OutOfBounds 32))"
proof -
  define slot where "slot = QueueMessage_buf junk kind msg msgSize"
  define sniffed where
    "sniffed = QueueMessage_buf junk (kind_byte RADIO_QUEUE_MSG_SNIFF) msg msgSize"
  have m: "min (unat msgSize) 30 = 30" using assms(2) by simp
  have slot_eq: "slot = kind # byte_of (unat msgSize) # take 30 msg @ drop 32 junk"
    unfolding slot_def using QueueMessage_buf_eq [OF assms(1) assms(3), of kind]
    by (simp add: m)
  have sniffed_eq: "sniffed = kind_byte RADIO_QUEUE_MSG_SNIFF # byte_of (unat msgSize)
                                # take 30 msg @ drop 32 junk"
    unfolding sniffed_def
    using QueueMessage_buf_eq [OF assms(1) assms(3), of "kind_byte RADIO_QUEUE_MSG_SNIFF"]
    by (simp add: m)
  have len: "length slot = 32" and lens: "length sniffed = 32"
    using assms by (simp_all add: slot_eq sniffed_eq)
  have v: "val_of (slot ! 1) = unat msgSize" and vs: "val_of (sniffed ! 1) = unat msgSize"
    by (simp_all add: slot_eq sniffed_eq val_of_byte_of unat_u8_less)
  have k: "sniffed ! 0 = kind_byte RADIO_QUEUE_MSG_SNIFF" by (simp add: sniffed_eq)
  have d: "drop 2 slot = take 30 msg" using assms by (simp add: slot_eq)
  have dl: "length (drop 2 slot) < val_of (slot ! 1)" unfolding v using len assms(2) by simp
  have r0: "slot_read (sniffed @ behind) 0 = Inr (kind_byte RADIO_QUEUE_MSG_SNIFF)"
    using lens k by (simp add: slot_read_def nth_append)
  have r0': "slot_read sniffed 0 = Inr (kind_byte RADIO_QUEUE_MSG_SNIFF)"
    using lens k by (simp add: slot_read_def)
  have "30 < val_of (sniffed ! 1)" and "val_of (sniffed ! 1) \<le> 30 + length behind"
    unfolding vs by (rule assms(2), rule assms(5))
  from HandleMessage_sniff_run [OF lens this, of s] obtain ascii hex where
    "HandleMessage_sniff (sniffed @ behind) s =
       Inr (emit ([SHELL_SendMessage (sniff_header (RADIO_Channel s) (unat msgSize))]
                  @ map OutOfBoundsRead [32..<2 + min (unat msgSize) 32]
                  @ [SHELL_SendMessage ascii]
                  @ map OutOfBoundsRead [32..<2 + unat msgSize]
                  @ [SHELL_SendMessage hex, SHELL_SendMessage CRLF]) s)"
    unfolding vs by blast
  then have run: "\<exists>ascii hex.
       RADIO_HandleMessage pl drv (sniffed @ behind) s =
         Some (Inr (emit ([SHELL_SendMessage (sniff_header (RADIO_Channel s) (unat msgSize))]
                  @ map OutOfBoundsRead [32..<2 + min (unat msgSize) 32]
                  @ [SHELL_SendMessage ascii]
                  @ map OutOfBoundsRead [32..<2 + unat msgSize]
                  @ [SHELL_SendMessage hex, SHELL_SendMessage CRLF]) s))"
    using assms(4) unfolding RADIO_HandleMessage_def r0 by (simp del: kind_byte.simps) blast
  have "30 < val_of (sniffed ! 1)" unfolding vs by (rule assms(2))
  with lens have "HandleMessage_sniff sniffed s = Inl (OutOfBounds 32)"
    by (rule HandleMessage_sniff_overrun)
  then have bare: "RADIO_HandleMessage pl drv sniffed s = Some (Inl (OutOfBounds 32))"
    using assms(4) unfolding RADIO_HandleMessage_def r0' by (simp del: kind_byte.simps)
  have h: "sniff_hex slot (val_of (slot ! 1)) 0 rds buf = Inl (OutOfBounds 32)"
    unfolding v using len assms(2) by (intro sniff_hex_overrun) auto
  show ?thesis
    unfolding Let_def slot_def [symmetric] sniffed_def [symmetric]
    using v d dl run bare h by blast
qed

text \<open>
  A sniffed payload of 40 bytes, handled with sniffing on, with 16 known bytes behind the
  consumer's copy and with none.
\<close>

theorem C10_recorded_length_overrun_witness:
  "(let sniffed = QueueMessage_buf (replicate 32 CHR ''z'') (kind_byte RADIO_QUEUE_MSG_SNIFF)
                    (replicate 40 CHR ''a'') 40;
        s = static_init\<lparr>RADIO_isSniffing := True\<rparr>
    in RADIO_isSniffing s
       \<and> val_of (sniffed ! 1) = 40
       \<and> length (drop 2 sniffed) = 30
       \<and> (\<exists>ascii hex.
             RADIO_HandleMessage platform0 (\<lambda>t. True) (sniffed @ replicate 16 CHR ''q'') s =
               Some (Inr (emit
                 ([SHELL_SendMessage (sniff_header (RADIO_Channel s) 40)]
                  @ map OutOfBoundsRead [32..<34]
                  @ [SHELL_SendMessage ascii]
                  @ map OutOfBoundsRead [32..<42]
                  @ [SHELL_SendMessage hex, SHELL_SendMessage CRLF]) s)))
       \<and> RADIO_HandleMessage platform0 (\<lambda>t. True) sniffed s = Some (Inl (OutOfBounds 32))
       \<and> sniff_hex sniffed (val_of (sniffed ! 1)) 0 [] (UTIL1_strcat [] 32 '' hex: '')
           = Inl (OutOfBounds 32))"
proof -
  define sniffed where "sniffed =
    QueueMessage_buf (replicate 32 CHR ''z'') (kind_byte RADIO_QUEUE_MSG_SNIFF)
      (replicate 40 CHR ''a'') 40"
  define s where "s = static_init\<lparr>RADIO_isSniffing := True\<rparr>"
  have h1: "length (replicate 32 CHR ''z'') = 32" by simp
  have h2: "30 < unat (40 :: 8 word)" by simp
  have h3: "unat (40 :: 8 word) \<le> length (replicate 40 CHR ''a'')" by simp
  have h4: "RADIO_isSniffing s" by (simp add: s_def)
  have h5: "unat (40 :: 8 word) \<le> 30 + length (replicate 16 CHR ''q'')" by simp
  have n: "unat (40 :: 8 word) = 40" "min (40 :: nat) 32 = 32" "(2 :: nat) + 32 = 34"
    "(2 :: nat) + 40 = 42"
    by simp_all
  note F = C10_recorded_length_overrun
    [OF h1 h2 h3 h4 h5, where kind = "kind_byte RADIO_QUEUE_MSG_SNIFF" and pl = platform0
       and drv = "\<lambda>t. True" and rds = "[]" and buf = "UTIL1_strcat [] 32 '' hex: ''",
     unfolded Let_def, folded sniffed_def, unfolded n]
  from F have V: "val_of (sniffed ! 1) = 40" by blast
  from F have D: "drop 2 sniffed = take 30 (replicate 40 CHR ''a'')" by blast
  have L: "length (drop 2 sniffed) = 30" unfolding D by simp
  from F have R: "\<exists>ascii hex.
             RADIO_HandleMessage platform0 (\<lambda>t. True) (sniffed @ replicate 16 CHR ''q'') s =
               Some (Inr (emit
                 ([SHELL_SendMessage (sniff_header (RADIO_Channel s) 40)]
                  @ map OutOfBoundsRead [32..<34]
                  @ [SHELL_SendMessage ascii]
                  @ map OutOfBoundsRead [32..<42]
                  @ [SHELL_SendMessage hex, SHELL_SendMessage CRLF]) s))"
    by blast
  from F have B: "RADIO_HandleMessage platform0 (\<lambda>t. True) sniffed s
                  = Some (Inl (OutOfBounds 32))"
    by blast
  from F have H: "sniff_hex sniffed (val_of (sniffed ! 1)) 0 [] (UTIL1_strcat [] 32 '' hex: '')
                  = Inl (OutOfBounds 32)"
    by blast
  show ?thesis
    unfolding Let_def sniffed_def [symmetric] s_def [symmetric]
    using h4 V L R B H by blast
qed

subsection \<open>The contest protocol engine\<close>


text \<open>
  A signed 8-bit value has at most three digits: its text has at most four characters and
  does not depend on the capacity of a destination of five bytes or more.
\<close>

lemma num_digits_length: "v < 10 ^ k \<Longrightarrow> length (num_digits room v) \<le> k"
proof (induction k arbitrary: room v)
  case 0
  then show ?case by (cases room) auto
next
  case (Suc k)
  show ?case
  proof (cases room)
    case 0
    then show ?thesis by simp
  next
    case (Suc r)
    have "v div 10 < 10 ^ k" using Suc.prems by (simp add: less_mult_imp_div_less)
    then have "length (num_digits r (v div 10)) \<le> k" by (rule Suc.IH)
    with Suc show ?thesis by simp
  qed
qed

lemma num_digits_room: "v < 10 ^ k \<Longrightarrow> k \<le> room \<Longrightarrow> num_digits room v = num_digits k v"
proof (induction k arbitrary: room v)
  case 0
  then show ?case by (cases room) auto
next
  case (Suc k)
  then obtain r where r: "room = Suc r" and kr: "k \<le> r" by (cases room) auto
  have "v div 10 < 10 ^ k" using Suc.prems by (simp add: less_mult_imp_div_less)
  then have "num_digits r (v div 10) = num_digits k (v div 10)" using kr by (rule Suc.IH)
  with r show ?case by simp
qed

lemma sint8_bound: "nat \<bar>sint (v :: 8 word)\<bar> < 10 ^ 3"
proof -
  have "- (2 ^ 7) \<le> sint v" "sint v < 2 ^ 7"
    using sint_ge [of v] sint_lt [of v] by simp_all
  then show ?thesis by simp
qed

lemma num_to_str_eq:
  assumes "m < 10 ^ 3" and "4 \<le> room"
  shows "num_to_str sg m room
         = rev ((if m = 0 then ''0'' else num_digits 3 m) @ (if sg then ''-'' else []))"
proof (cases "m = 0")
  case True
  have z: "num_digits k 0 = []" for k by (cases k) auto
  from True assms show ?thesis by (simp add: num_to_str_def Let_def z)
next
  case False
  have a: "num_digits room m = num_digits 3 m" using assms by (intro num_digits_room) auto
  have d3: "length (num_digits 3 m) \<le> 3" using assms(1) by (rule num_digits_length)
  from False assms d3 show ?thesis by (simp add: num_to_str_def Let_def a)
qed

lemma Num8sToStr_eq:
  assumes "5 \<le> n"
  shows "UTIL1_Num8sToStr n v = num_to_str (sint v < 0) (nat \<bar>sint v\<bar>) 4"
proof -
  have r: "4 \<le> n - 1" using assms by simp
  have "UTIL1_Num8sToStr n v = num_to_str (sint v < 0) (nat \<bar>sint v\<bar>) (n - 1)"
    by (simp only: UTIL1_Num8sToStr_def UTIL1_NumsToStr_def)
  also have "\<dots> = num_to_str (sint v < 0) (nat \<bar>sint v\<bar>) 4"
    by (simp only: num_to_str_eq [OF sint8_bound r] num_to_str_eq [OF sint8_bound order_refl])
  finally show ?thesis .
qed

lemma Num8sToStr_size: "5 \<le> n \<Longrightarrow> UTIL1_Num8sToStr n v = UTIL1_Num8sToStr 5 v"
  by (simp only: Num8sToStr_eq [of n v] Num8sToStr_eq [of 5 v, OF order_refl])

lemma Num8sToStr_length: "length (UTIL1_Num8sToStr 5 v) \<le> 4"
proof -
  define m where "m = nat \<bar>sint v\<bar>"
  have m: "m < 10 ^ 3" unfolding m_def by (rule sint8_bound)
  have d3: "length (num_digits 3 m) \<le> 3" using m by (rule num_digits_length)
  have "UTIL1_Num8sToStr 5 v = num_to_str (sint v < 0) m 4"
    unfolding m_def by (rule Num8sToStr_eq) simp
  also have "\<dots> = rev ((if m = 0 then ''0'' else num_digits 3 m) @ (if sint v < 0 then ''-'' else []))"
    using m by (rule num_to_str_eq) simp
  finally show ?thesis using d3 by simp
qed

lemma Num8sToStr_0: "UTIL1_Num8sToStr 5 0 = ''0''"
  by code_simp

text \<open>
  Appending to a string that was cut to the capacity, and cutting again, is cutting the
  concatenation.
\<close>

lemma take_take_append: "take n (take n x @ y) = take n (x @ y)"
  by (cases "length x \<le> n") simp_all

lemma strcat_take: "UTIL1_strcat (take m x) (Suc m) y = take m (x @ y)"
  by (simp only: UTIL1_strcat_def diff_Suc_1 take_take_append)

lemma chcat_take:
  "UTIL1_chcat (take m x) (Suc m) ch = take m (x @ (if ch = CHR 0x00 then [] else [ch]))"
proof (cases "ch = CHR 0x00")
  case True
  then show ?thesis by (simp add: UTIL1_chcat_def)
next
  case False
  then show ?thesis by (simp only: UTIL1_chcat_def diff_Suc_1 take_take_append if_False)
qed

lemma strcatNum8s_take:
  "UTIL1_strcatNum8s (take m x) (Suc m) v = take m (x @ UTIL1_Num8sToStr 5 v)"
  by (simp only: UTIL1_strcatNum8s_def strcat_take)

lemma spec_result_token_length: "length (spec_result_token a b oc) \<le> 5"
  using Num8sToStr_length [of "a + b"] Num8sToStr_length [of "a - b"]
    Num8sToStr_length [of "a * b"] Num8sToStr_length [of "word_of_int (sint a sdiv sint b)"]
  by (simp add: spec_result_token_def)

lemma spec_formatted_answer_length: "length (spec_formatted_answer a b oc) \<le> 31"
proof -
  define A where "A = UTIL1_Num8sToStr 5 a"
  define B where "B = UTIL1_Num8sToStr 5 b"
  define os where "os = (if oc = CHR 0x00 then [] else [oc])"
  define R where "R = spec_result_token a b oc"
  have la: "length A \<le> 4" unfolding A_def by (rule Num8sToStr_length)
  have lb: "length B \<le> 4" unfolding B_def by (rule Num8sToStr_length)
  have lo: "length os \<le> 1" unfolding os_def by simp
  have lr: "length R \<le> 5" unfolding R_def by (rule spec_result_token_length)
  have lbr: "length B + length R \<le> 8"
  proof (cases "b = 0")
    case True
    then have "length B = 1" unfolding B_def by (simp add: Num8sToStr_0)
    with lr show ?thesis by simp
  next
    case False
    have "length R \<le> 4"
      unfolding R_def
      using False Num8sToStr_length [of "a + b"] Num8sToStr_length [of "a - b"]
        Num8sToStr_length [of "a * b"] Num8sToStr_length [of "word_of_int (sint a sdiv sint b)"]
      by (simp add: spec_result_token_def)
    with lb show ?thesis by simp
  qed
  have "spec_formatted_answer a b oc = A @ '' '' @ os @ '' '' @ B @ '' = '' @ R @ contest_trailer"
    by (simp only: spec_formatted_answer_def A_def B_def os_def R_def)
  then show ?thesis using la lo lbr by (simp add: contest_trailer_def)
qed

lemma CalcResultString_take:
  assumes "5 \<le> bufSize"
  shows "CalcResultString bufSize a b oc = Inr (take (bufSize - 1) (spec_formatted_answer a b oc))"
proof -
  from assms obtain m where n: "bufSize = Suc m" and m4: "4 \<le> m"
    by (cases bufSize) auto
  define H where "H = UTIL1_Num8sToStr 5 a @ '' '' @ (if oc = CHR 0x00 then [] else [oc]) @ '' ''
           @ UTIL1_Num8sToStr 5 b @ '' = ''"
  have A: "UTIL1_Num8sToStr (Suc m) a = take m (UTIL1_Num8sToStr 5 a)"
    using Num8sToStr_size [of "Suc m" a] Num8sToStr_length [of a] m4 by simp
  have head: "UTIL1_strcat
           (UTIL1_strcatNum8s
              (UTIL1_chcat (UTIL1_chcat (UTIL1_chcat (UTIL1_Num8sToStr (Suc m) a) (Suc m) CHR '' '')
                 (Suc m) oc) (Suc m) CHR '' '')
              (Suc m) b)
           (Suc m) '' = '' = take m H"
    unfolding A chcat_take strcatNum8s_take strcat_take H_def by simp
  have tail_num: "UTIL1_strcat (UTIL1_strcatNum8s (take m H) (Suc m) v) (Suc m) contest_trailer
                  = take m (H @ UTIL1_Num8sToStr 5 v @ contest_trailer)" for v
    by (simp only: strcatNum8s_take strcat_take append_assoc)
  have tail_err: "UTIL1_strcat (UTIL1_strcat (take m H) (Suc m) ''ERROR'') (Suc m) contest_trailer
                  = take m (H @ ''ERROR'' @ contest_trailer)"
    by (simp only: strcat_take append_assoc)
  have tail_none: "UTIL1_strcat (take m H) (Suc m) contest_trailer = take m (H @ contest_trailer)"
    by (simp only: strcat_take)
  have "CalcResultString (Suc m) a b oc
        = Inr (take m (H @ spec_result_token a b oc @ contest_trailer))"
    unfolding CalcResultString_def Let_def head
    by (simp add: int8_div_def tail_num tail_err tail_none spec_result_token_def
          del: take_append)
  then show ?thesis
    unfolding n H_def spec_formatted_answer_def by simp
qed

text \<open>
  Claim C7, as amended. For every pair of operands and every operator, also with
  \<^verbatim>\<open>/\<close> and a zero divisor, the formatter returns a string and no error: the division
  is evaluated only for a nonzero divisor, and for a zero divisor the token \<^verbatim>\<open>ERROR\<close>
  stands in place of the quotient. The trailer is appended, and the result is what fits
  into the destination: the first \<open>bufSize - 1\<close> characters of the answer with its
  trailer. That text never has more than 31 characters, so the responder's 36-byte
  buffer always holds it whole.
\<close>

theorem C7_formatter_total_trailer_bounded:
  assumes "5 \<le> bufSize"
  shows "CalcResultString bufSize a b oc = Inr (take (bufSize - 1) (spec_formatted_answer a b oc))
       \<and> length (spec_formatted_answer a b oc) \<le> 31
       \<and> CalcResultString 36 a b oc = Inr (spec_formatted_answer a b oc)"
  using CalcResultString_take [OF assms, of a b oc] CalcResultString_take [of 36 a b oc]
    spec_formatted_answer_length [of a b oc] by simp

text \<open>
  Five divided by zero, in the 16 bytes of the expected-answer buffer and in the 36 bytes
  of the responder.
\<close>

theorem C7_formatter_total_trailer_bounded_witness:
  "CalcResultString 16 5 0 CHR ''/'' = Inr ''5 / 0 = ERROR J''
   \<and> CalcResultString 36 5 0 CHR ''/'' = Inr (''5 / 0 = ERROR'' @ contest_trailer)"
proof -
  have h: "(5::nat) \<le> 16" by simp
  have t: "spec_formatted_answer 5 0 CHR ''/'' = ''5 / 0 = ERROR Joe TheBest!''"
    by code_simp
  show ?thesis
    using C7_formatter_total_trailer_bounded [OF h, where a = 5 and b = 0 and oc = "CHR ''/''"]
    by (simp add: t contest_trailer_def)
qed

text \<open>
  The claim as stated fails where the formatter fills the 16-byte buffer of the expected
  answer (the challenge command): the answer to \<^verbatim>\<open>3 + 4\<close> ends in the middle of the
  trailer, and the answer to \<^verbatim>\<open>-128 * -128\<close> has no character of it.
\<close>

theorem C7_trailer_counterexample:
  "CalcResultString 16 3 4 CHR ''+'' = Inr ''3 + 4 = 7 Joe T''
   \<and> CalcResultString 16 3 4 CHR ''+'' \<noteq> Inr (''3 + 4 = 7'' @ contest_trailer)
   \<and> CalcResultString 16 (- 128) (- 128) CHR ''*'' = Inr ''-128 * -128 = 0''"
  by code_simp

subsection \<open>The answer branch of the consumer\<close>

text \<open>
  For a slot whose payload ends inside it, the answer branch prints the winner message
  exactly when the bounded comparison with the cached string does not give 0.
\<close>

lemma HandleMessage_answer_mismatch:
  assumes "slot_cstr slot 2 = Inr msg"
  shows "HandleMessage_answer slot s =
           (if UTIL1_strncmp msg (ContestCalcExpectedResultStr s)
                 (UTIL1_strlen (ContestCalcExpectedResultStr s)) = 0
            then Inr s
            else Inr (emit [CLS1_SendStr (CRLF @ ''****FOUND A WINNER!!!!!!'' @ CRLF),
                            CLS1_SendStr msg, CLS1_SendStr CRLF] s))"
proof -
  from assms have "cstr (drop 2 slot) = msg"
    by (simp add: slot_cstr_def split: if_splits)
  with assms show ?thesis by (simp add: HandleMessage_answer_def)
qed

lemma kind_byte_values:
  "kind_byte RADIO_QUEUE_MSG_SNIFF = CHR 0x00"
  "kind_byte RADIO_QUEUE_MSG_CONTEST_QUESTION = CHR 0x01"
  "kind_byte RADIO_QUEUE_MSG_CONTEST_ANSWER = CHR 0x02"
  "kind_byte RADIO_QUEUE_MSG_ACCEL = CHR 0x03"
  by code_simp+

text \<open>
  Claim C1, on the code. After the challenge \<^verbatim>\<open>3 + 4 = ?\<close> the cached expected answer
  is \<^verbatim>\<open>3 + 4 = 7 Joe T\<close>. A dequeued answer \<^verbatim>\<open>3 + 4 = 7 Joe TheBest!\<close> matches it
  under the bounded comparison, and the handler prints nothing; the answer
  \<^verbatim>\<open>3 + 4 = 8 Joe TheBest!\<close> does not match, and the handler prints the winner message.
\<close>

theorem C1_winner_reported_on_mismatch:
  "(case RADIO_ParseCommand_challenge platform0 (\<lambda>t. True) ''radio challenge 3 + 4 = ?''
          static_init of
      Some (Inr s) \<Rightarrow>
        ContestCalcExpectedResultStr s = ''3 + 4 = 7 Joe T''
        \<and> UTIL1_strncmp ''3 + 4 = 7 Joe TheBest!'' (ContestCalcExpectedResultStr s)
             (UTIL1_strlen (ContestCalcExpectedResultStr s)) = 0
        \<and> RADIO_HandleMessage platform0 (\<lambda>t. True)
             (QueueMessage_buf (replicate 32 CHR ''z'') (kind_byte RADIO_QUEUE_MSG_CONTEST_ANSWER)
                (''3 + 4 = 7 Joe TheBest!'' @ [CHR 0x00]) 23) s
            = Some (Inr s)
        \<and> RADIO_HandleMessage platform0 (\<lambda>t. True)
             (QueueMessage_buf (replicate 32 CHR ''z'') (kind_byte RADIO_QUEUE_MSG_CONTEST_ANSWER)
                (''3 + 4 = 8 Joe TheBest!'' @ [CHR 0x00]) 23) s
            = Some (Inr (emit [CLS1_SendStr (CRLF @ ''****FOUND A WINNER!!!!!!'' @ CRLF),
                               CLS1_SendStr ''3 + 4 = 8 Joe TheBest!'', CLS1_SendStr CRLF] s))
    | _ \<Rightarrow> False)"
proof -
  define right where "right =
    QueueMessage_buf (replicate 32 CHR ''z'') (kind_byte RADIO_QUEUE_MSG_CONTEST_ANSWER)
      (''3 + 4 = 7 Joe TheBest!'' @ [CHR 0x00]) 23"
  define wrong where "wrong =
    QueueMessage_buf (replicate 32 CHR ''z'') (kind_byte RADIO_QUEUE_MSG_CONTEST_ANSWER)
      (''3 + 4 = 8 Joe TheBest!'' @ [CHR 0x00]) 23"
  have c: "CalcResultString 16 3 4 CHR ''+'' = Inr ''3 + 4 = 7 Joe T''" by code_simp
  have p: "IsContestMessage ''3 + 4 = ?''
            = Some \<lparr>opA = 3, opB = 4, operator = CHR ''+'', isQuestion = True\<rparr>"
    by code_simp
  have d: "busy_drain pl drv static_init =
     Some (static_init\<lparr>RADIO_AppStatus := RADIO_READY_FOR_TX_RX_DATA,
                        trace := [SMAC1_MLMERXEnableRequest 0]\<rparr>)" for pl drv
    by (simp add: busy_drain_step busy_drain_ready RADIO_HandleState_def static_init_def emit_def)
  have on: "RADIO_isOn static_init" by (simp add: static_init_def)
  obtain s where ch: "RADIO_ParseCommand_challenge platform0 (\<lambda>t. True)
                        ''radio challenge 3 + 4 = ?'' static_init = Some (Inr s)"
    and cache: "ContestCalcExpectedResultStr s = ''3 + 4 = 7 Joe T''"
    by (simp add: RADIO_ParseCommand_challenge_def p c RADIO_SendStringRaw_def Let_def on d)
  have right: "right = [CHR 0x02, CHR 0x17] @ ''3 + 4 = 7 Joe TheBest!'' @ [CHR 0x00]
                          @ replicate 7 CHR ''z''"
    unfolding right_def by code_simp
  have wrong: "wrong = [CHR 0x02, CHR 0x17] @ ''3 + 4 = 8 Joe TheBest!'' @ [CHR 0x00]
                          @ replicate 7 CHR ''z''"
    unfolding wrong_def by code_simp
  have cmp_right: "UTIL1_strncmp ''3 + 4 = 7 Joe TheBest!'' ''3 + 4 = 7 Joe T''
                     (UTIL1_strlen ''3 + 4 = 7 Joe T'') = 0"
    by code_simp
  have cmp_wrong: "UTIL1_strncmp ''3 + 4 = 8 Joe TheBest!'' ''3 + 4 = 7 Joe T''
                     (UTIL1_strlen ''3 + 4 = 7 Joe T'') = 1"
    by code_simp
  have cr: "slot_cstr right 2 = Inr ''3 + 4 = 7 Joe TheBest!''"
    unfolding right by (simp add: slot_cstr_def cstr_def)
  have cw: "slot_cstr wrong 2 = Inr ''3 + 4 = 8 Joe TheBest!''"
    unfolding wrong by (simp add: slot_cstr_def cstr_def)
  have kr: "slot_read right 0 = Inr (CHR 0x02)" unfolding right by (simp add: slot_read_def)
  have kw: "slot_read wrong 0 = Inr (CHR 0x02)" unfolding wrong by (simp add: slot_read_def)
  have hr: "RADIO_HandleMessage platform0 (\<lambda>t. True) right s = Some (Inr s)"
    by (simp add: RADIO_HandleMessage_def kr kind_byte_values
          HandleMessage_answer_mismatch [OF cr] cache cmp_right del: kind_byte.simps)
  have hw: "RADIO_HandleMessage platform0 (\<lambda>t. True) wrong s
            = Some (Inr (emit [CLS1_SendStr (CRLF @ ''****FOUND A WINNER!!!!!!'' @ CRLF),
                               CLS1_SendStr ''3 + 4 = 8 Joe TheBest!'', CLS1_SendStr CRLF] s))"
    by (simp add: RADIO_HandleMessage_def kw kind_byte_values
          HandleMessage_answer_mismatch [OF cw] cache cmp_wrong del: kind_byte.simps)
  have "ContestCalcExpectedResultStr s = ''3 + 4 = 7 Joe T''
        \<and> UTIL1_strncmp ''3 + 4 = 7 Joe TheBest!'' (ContestCalcExpectedResultStr s)
             (UTIL1_strlen (ContestCalcExpectedResultStr s)) = 0
        \<and> RADIO_HandleMessage platform0 (\<lambda>t. True) right s = Some (Inr s)
        \<and> RADIO_HandleMessage platform0 (\<lambda>t. True) wrong s
            = Some (Inr (emit [CLS1_SendStr (CRLF @ ''****FOUND A WINNER!!!!!!'' @ CRLF),
                               CLS1_SendStr ''3 + 4 = 8 Joe TheBest!'', CLS1_SendStr CRLF] s))"
    using cache cmp_right hr hw by (simp only: simp_thms)
  then show ?thesis
    unfolding ch right_def wrong_def option.case sum.case .
qed

end
